theory Spec2Isabelle
  imports Main "HOL-Library.Multiset" "HOL-Library.List_Lexorder" "HOL-Library.Char_ord"
begin

section \<open>Values of the YAML, JSON and Python layer\<close>

text \<open>
  The scripts exchange plain documents: \<^verbatim>\<open>yaml.safe_load\<close> and \<^verbatim>\<open>json.loads\<close> give
  \<^verbatim>\<open>None\<close>, booleans, integers, strings, lists and insertion-ordered dictionaries.
  A dictionary is an association list in insertion order, so that the order in which
  \<^verbatim>\<open>yaml.dump(..., sort_keys=False)\<close> writes the keys is part of the value. Floating-point
  numbers and YAML timestamps are not modelled. A file written with \<^verbatim>\<open>yaml.dump\<close> is
  represented by the value that is dumped.
\<close>

datatype yval =
    VNone
  | VBool bool
  | VInt int
  | VStr string
  | VList "yval list"
  | VDict "(yval \<times> yval) list"

type_synonym pydict = "(yval \<times> yval) list"

datatype py_error = TypeError | KeyError | AttributeError

text \<open>Python truth value of a document value (\<^verbatim>\<open>if x:\<close>, \<^verbatim>\<open>not x\<close>).\<close>

fun truthy :: "yval \<Rightarrow> bool" where
  "truthy VNone = False"
| "truthy (VBool b) = b"
| "truthy (VInt i) = (i \<noteq> 0)"
| "truthy (VStr s) = (s \<noteq> [])"
| "truthy (VList xs) = (xs \<noteq> [])"
| "truthy (VDict d) = (d \<noteq> [])"

text \<open>Lists and dictionaries are unhashable: using one as a dictionary key raises TypeError.\<close>

fun hashable :: "yval \<Rightarrow> bool" where
  "hashable (VList xs) = False"
| "hashable (VDict d) = False"
| "hashable v = True"

text \<open>
  Python compares dictionary keys with \<^verbatim>\<open>==\<close>, under which \<^verbatim>\<open>True == 1\<close> and
  \<^verbatim>\<open>False == 0\<close>. Two keys are the same key when their normal forms agree.
\<close>

fun nkey :: "yval \<Rightarrow> yval" where
  "nkey (VBool b) = VInt (if b then 1 else 0)"
| "nkey v = v"

text \<open>\<^verbatim>\<open>d.get(k)\<close> on a dictionary: the value stored under the key, if any.\<close>

fun dict_get :: "pydict \<Rightarrow> yval \<Rightarrow> yval option" where
  "dict_get [] k = None"
| "dict_get ((a, b) # d) k = (if nkey a = nkey k then Some b else dict_get d k)"

text \<open>\<^verbatim>\<open>d[k] = v\<close>: an existing key keeps its position (and its key object), a new key is
  appended.\<close>

fun dict_set :: "pydict \<Rightarrow> yval \<Rightarrow> yval \<Rightarrow> pydict" where
  "dict_set [] k v = [(k, v)]"
| "dict_set ((a, b) # d) k v =
     (if nkey a = nkey k then (a, v) # d else (a, b) # dict_set d k v)"

text \<open>\<^verbatim>\<open>d.pop(k, None)\<close>, result discarded.\<close>

definition dict_pop :: "pydict \<Rightarrow> yval \<Rightarrow> pydict" where
  "dict_pop d k = filter (\<lambda>p. nkey (fst p) \<noteq> nkey k) d"

text \<open>\<^verbatim>\<open>d.get(k, dflt)\<close>.\<close>

definition dict_get_default :: "pydict \<Rightarrow> yval \<Rightarrow> yval \<Rightarrow> yval" where
  "dict_get_default d k dflt = (case dict_get d k of Some v \<Rightarrow> v | None \<Rightarrow> dflt)"

text \<open>\<^verbatim>\<open>k in d and d[k]\<close> and \<^verbatim>\<open>d.get(k)\<close> used as a condition: present and truthy.\<close>

definition has_truthy :: "pydict \<Rightarrow> yval \<Rightarrow> bool" where
  "has_truthy d k = (case dict_get d k of Some v \<Rightarrow> truthy v | None \<Rightarrow> False)"

text \<open>\<^verbatim>\<open>x.get(k, dflt)\<close> on an arbitrary value: only dictionaries have \<^verbatim>\<open>get\<close>.\<close>

definition attr_get :: "yval \<Rightarrow> yval \<Rightarrow> yval \<Rightarrow> py_error + yval" where
  "attr_get x k dflt =
     (case x of VDict d \<Rightarrow> Inr (dict_get_default d k dflt) | _ \<Rightarrow> Inl AttributeError)"

text \<open>\<^verbatim>\<open>for item in x\<close>: a list gives its elements, a string its characters, a dictionary
  its keys; anything else is not iterable.\<close>

definition py_iter :: "yval \<Rightarrow> py_error + yval list" where
  "py_iter x =
     (case x of
        VList xs \<Rightarrow> Inr xs
      | VStr s \<Rightarrow> Inr (map (\<lambda>c. VStr [c]) s)
      | VDict d \<Rightarrow> Inr (map fst d)
      | _ \<Rightarrow> Inl TypeError)"

section \<open>Enricher: \<^verbatim>\<open>enrich_schema_with_picklists.py\<close>\<close>

subsection \<open>\<^verbatim>\<open>SchemaEnricher.extract_picklist_values\<close>\<close>

text \<open>
  The list comprehension
  \<^verbatim>\<open>[pv['value'] for pv in picklist_values if pv.get('active', True)]\<close>:
  each option is asked for its flag (AttributeError when the option is not a dictionary);
  an option without the flag counts as active; an active option must carry \<^verbatim>\<open>value\<close>
  (KeyError otherwise).
\<close>

fun active_values :: "yval list \<Rightarrow> py_error + yval list" where
  "active_values [] = Inr []"
| "active_values (pv # pvs) =
     (case pv of
        VDict d \<Rightarrow>
          (if truthy (dict_get_default d (VStr ''active'') (VBool True))
           then (case dict_get d (VStr ''value'') of
                   None \<Rightarrow> Inl KeyError
                 | Some v \<Rightarrow>
                     (case active_values pvs of Inl e \<Rightarrow> Inl e | Inr vs \<Rightarrow> Inr (v # vs)))
           else active_values pvs)
      | _ \<Rightarrow> Inl AttributeError)"

definition extract_picklist_values :: "pydict \<Rightarrow> py_error + yval list option" where
  "extract_picklist_values field_metadata =
     (if dict_get field_metadata (VStr ''type'') \<noteq> Some (VStr ''picklist'')
         \<and> dict_get field_metadata (VStr ''type'') \<noteq> Some (VStr ''multipicklist'')
      then Inr None
      else
        (case py_iter (dict_get_default field_metadata (VStr ''picklistValues'') (VList [])) of
           Inl e \<Rightarrow> Inl e
         | Inr picklist_values \<Rightarrow>
             (case active_values picklist_values of
                Inl e \<Rightarrow> Inl e
              | Inr vs \<Rightarrow> Inr (if vs = [] then None else Some vs))))"

subsection \<open>\<^verbatim>\<open>SchemaEnricher._extract_non_picklist_formula_metadata\<close>\<close>

text \<open>\<^verbatim>\<open>if fm.get(src): ef[dst] = fm[src]\<close>\<close>

definition copy_if_truthy :: "pydict \<Rightarrow> string \<Rightarrow> string \<Rightarrow> pydict \<Rightarrow> pydict" where
  "copy_if_truthy fm src dst ef =
     (case dict_get fm (VStr src) of
        Some v \<Rightarrow> if truthy v then dict_set ef (VStr dst) v else ef
      | None \<Rightarrow> ef)"

text \<open>\<^verbatim>\<open>if fm.get(src): ef[dst] = True\<close>\<close>

definition flag_if_truthy :: "pydict \<Rightarrow> string \<Rightarrow> string \<Rightarrow> pydict \<Rightarrow> pydict" where
  "flag_if_truthy fm src dst ef =
     (if has_truthy fm (VStr src) then dict_set ef (VStr dst) (VBool True) else ef)"

text \<open>
  \<^verbatim>\<open>reference_to[0] if len(reference_to) == 1 else reference_to\<close> for a truthy
  \<^verbatim>\<open>reference_to\<close>. The describe call gives a list; for the other truthy values Python
  does this: the first character of a one-character string is the string itself, a
  one-entry dictionary is subscripted with the key \<^verbatim>\<open>0\<close>, and a number has no
  \<^verbatim>\<open>len\<close>.
\<close>

fun reference_target :: "yval \<Rightarrow> py_error + yval" where
  "reference_target (VList xs) = Inr (case xs of [x] \<Rightarrow> x | _ \<Rightarrow> VList xs)"
| "reference_target (VStr s) = Inr (VStr s)"
| "reference_target (VDict d) =
     (case d of
        [p] \<Rightarrow> (case dict_get d (VInt 0) of Some v \<Rightarrow> Inr v | None \<Rightarrow> Inl KeyError)
      | _ \<Rightarrow> Inr (VDict d))"
| "reference_target v = Inl TypeError"

definition reference_step :: "pydict \<Rightarrow> pydict \<Rightarrow> py_error + pydict" where
  "reference_step fm ef =
     (if dict_get fm (VStr ''type'') = Some (VStr ''reference'')
      then (let reference_to = dict_get_default fm (VStr ''referenceTo'') (VList [])
            in if truthy reference_to
               then (case reference_target reference_to of
                       Inl e \<Rightarrow> Inl e
                     | Inr v \<Rightarrow> Inr (dict_set ef (VStr ''reference_to'') v))
               else Inr ef)
      else Inr ef)"

definition extract_non_picklist_formula_metadata :: "pydict \<Rightarrow> py_error + pydict" where
  "extract_non_picklist_formula_metadata fm =
     (let ef = copy_if_truthy fm ''defaultValue'' ''default_value'' [];
          ef = (if dict_get fm (VStr ''nillable'') = Some (VBool False)
                then dict_set ef (VStr ''required'') (VBool True) else ef);
          ef = flag_if_truthy fm ''unique'' ''unique'' ef;
          ef = flag_if_truthy fm ''externalId'' ''external_id'' ef
      in case reference_step fm ef of
           Inl e \<Rightarrow> Inl e
         | Inr ef \<Rightarrow>
             Inr (let ef = copy_if_truthy fm ''controllerName'' ''controlling_field'' ef;
                      ef = flag_if_truthy fm ''dependentPicklist'' ''is_dependent_picklist'' ef;
                      ef = copy_if_truthy fm ''length'' ''length'' ef;
                      ef = copy_if_truthy fm ''precision'' ''precision'' ef;
                      ef = copy_if_truthy fm ''scale'' ''scale'' ef;
                      ef = copy_if_truthy fm ''inlineHelpText'' ''help_text'' ef;
                      ef = copy_if_truthy fm ''label'' ''label'' ef
                  in ef))"

text \<open>The attributes of the fill-missing category, as keys of a partitioned field.\<close>

definition fill_missing_keys :: "string list" where
  "fill_missing_keys =
     [''default_value'', ''required'', ''unique'', ''external_id'', ''reference_to'',
      ''controlling_field'', ''is_dependent_picklist'', ''length'', ''precision'', ''scale'',
      ''help_text'', ''label'']"

subsection \<open>The merge loop of \<^verbatim>\<open>SchemaEnricher.enrich_object_schema\<close>\<close>

text \<open>
  \<^verbatim>\<open>for key, value in enriched_data.items():
      if key not in field or not field[key]: field[key] = value; enriched_count += 1\<close>
  The result is the field and the number of attributes adopted.
\<close>

fun fill_missing :: "pydict \<Rightarrow> pydict \<Rightarrow> pydict \<times> nat" where
  "fill_missing field [] = (field, 0)"
| "fill_missing field ((key, val) # enriched_data) =
     (if \<not> has_truthy field key
      then (let (field', n) = fill_missing (dict_set field key val) enriched_data
            in (field', Suc n))
      else fill_missing field enriched_data)"

record enrich_state =
  picklists_data :: pydict
  formulas_data :: pydict
  enriched_fields :: "yval list"
  enriched_count :: nat
  picklists_added :: nat
  formulas_added :: nat

definition init_enrich_state :: enrich_state where
  "init_enrich_state =
     \<lparr>picklists_data = [], formulas_data = [], enriched_fields = [], enriched_count = 0,
      picklists_added = 0, formulas_added = 0\<rparr>"

text \<open>The picklist part of the loop body, on the field dictionary and the state.\<close>

definition picklist_step ::
  "bool \<Rightarrow> yval \<Rightarrow> pydict \<Rightarrow> pydict \<times> enrich_state \<Rightarrow> py_error + (pydict \<times> enrich_state)" where
  "picklist_step is_new_structure field_name org_field fs =
     (let (field, st) = fs in
      if dict_get org_field (VStr ''type'') = Some (VStr ''picklist'')
         \<or> dict_get org_field (VStr ''type'') = Some (VStr ''multipicklist'')
      then (case extract_picklist_values org_field of
              Inl e \<Rightarrow> Inl e
            | Inr None \<Rightarrow> Inr (field, st)
            | Inr (Some vs) \<Rightarrow>
                if vs = [] then Inr (field, st)
                else Inr (if is_new_structure then field
                          else dict_set field (VStr ''picklist_values'') (VList vs),
                          st\<lparr>picklists_data := dict_set (picklists_data st) field_name (VList vs),
                             picklists_added := Suc (picklists_added st),
                             enriched_count := Suc (enriched_count st)\<rparr>))
      else Inr (field, st))"

text \<open>The formula part of the loop body.\<close>

definition formula_step ::
  "bool \<Rightarrow> yval \<Rightarrow> pydict \<Rightarrow> pydict \<times> enrich_state \<Rightarrow> pydict \<times> enrich_state" where
  "formula_step is_new_structure field_name org_field fs =
     (let (field, st) = fs in
      if has_truthy org_field (VStr ''calculated'')
      then (case dict_get org_field (VStr ''calculatedFormula'') of
              None \<Rightarrow> (field, st)
            | Some formula \<Rightarrow>
                if truthy formula
                then (if is_new_structure then field
                      else dict_set field (VStr ''formula'') formula,
                      st\<lparr>formulas_data := dict_set (formulas_data st) field_name formula,
                         formulas_added := Suc (formulas_added st),
                         enriched_count := Suc (enriched_count st)\<rparr>)
                else (field, st))
      else (field, st))"

text \<open>
  One pass of the loop body for one element of the schema's field list. The element
  must be a dictionary (\<^verbatim>\<open>field.get\<close>), its name must be hashable
  (\<^verbatim>\<open>field_name in org_fields\<close>), and the entry of \<^verbatim>\<open>org_fields\<close> must be a
  dictionary (\<^verbatim>\<open>org_field.get\<close>).
\<close>

definition enrich_step ::
  "bool \<Rightarrow> pydict \<Rightarrow> yval \<Rightarrow> enrich_state \<Rightarrow> py_error + enrich_state" where
  "enrich_step is_new_structure org_fields fld st =
     (case fld of
        VDict field \<Rightarrow>
          (let field_name = dict_get_default field (VStr ''api_name'') VNone in
           if \<not> hashable field_name then Inl TypeError
           else
             (case dict_get org_fields field_name of
                None \<Rightarrow> Inr (st\<lparr>enriched_fields := enriched_fields st @ [VDict field]\<rparr>)
              | Some (VDict org_field) \<Rightarrow>
                  (case picklist_step is_new_structure field_name org_field (field, st) of
                     Inl e \<Rightarrow> Inl e
                   | Inr fs1 \<Rightarrow>
                       (let (field2, st2) = formula_step is_new_structure field_name org_field fs1
                        in case extract_non_picklist_formula_metadata org_field of
                             Inl e \<Rightarrow> Inl e
                           | Inr enriched_data \<Rightarrow>
                               (let (field3, n) = fill_missing field2 enriched_data
                                in Inr (st2\<lparr>enriched_fields := enriched_fields st2 @ [VDict field3],
                                           enriched_count := enriched_count st2 + n\<rparr>))))
              | Some _ \<Rightarrow> Inl AttributeError))
      | _ \<Rightarrow> Inl AttributeError)"

fun enrich_fields ::
  "bool \<Rightarrow> pydict \<Rightarrow> yval list \<Rightarrow> enrich_state \<Rightarrow> py_error + enrich_state" where
  "enrich_fields is_new_structure org_fields [] st = Inr st"
| "enrich_fields is_new_structure org_fields (fld # flds) st =
     (case enrich_step is_new_structure org_fields fld st of
        Inl e \<Rightarrow> Inl e
      | Inr st' \<Rightarrow> enrich_fields is_new_structure org_fields flds st')"

text \<open>\<^verbatim>\<open>org_fields = {f['name']: f for f in org_metadata.get('fields', [])}\<close>\<close>

fun build_org_fields :: "yval list \<Rightarrow> pydict \<Rightarrow> py_error + pydict" where
  "build_org_fields [] acc = Inr acc"
| "build_org_fields (f # fs) acc =
     (case f of
        VDict d \<Rightarrow>
          (case dict_get d (VStr ''name'') of
             None \<Rightarrow> Inl KeyError
           | Some n \<Rightarrow>
               if hashable n then build_org_fields fs (dict_set acc n f) else Inl TypeError)
      | _ \<Rightarrow> Inl TypeError)"

subsection \<open>Files of one object and \<^verbatim>\<open>SchemaEnricher.enrich_object_schema\<close>\<close>

text \<open>
  A written file is its comment header followed by the dumped value. The header line
  that carries the time of writing is kept apart from the fixed comment lines.
  \<^verbatim>\<open>yaml.safe_load\<close> of a file gives its body again.
\<close>

datatype header_line = Comment string | Generated string

record document =
  header :: "header_line list"
  body :: yval

text \<open>Decimal rendering of a count in an f-string.\<close>

fun str_nat :: "nat \<Rightarrow> string" where
  "str_nat n =
     (if n < 10 then [char_of (48 + n)]
      else str_nat (n div 10) @ [char_of (48 + n mod 10)])"

text \<open>
  The files of one object under the schema directory: \<^verbatim>\<open><object>/schema.yaml\<close>,
  \<^verbatim>\<open><object>/picklists.yaml\<close>, \<^verbatim>\<open><object>/formulas.yaml\<close>, and the legacy single file
  \<^verbatim>\<open><object>.yaml\<close>.
\<close>

record object_files =
  schema_file :: "document option"
  picklists_file :: "document option"
  formulas_file :: "document option"
  legacy_file :: "document option"

text \<open>
  \<^verbatim>\<open>if 'metadata' not in schema: schema['metadata'] = {}\<close> followed by the three
  assignments into \<^verbatim>\<open>schema['metadata']\<close>, which must support item assignment.
\<close>

definition stamp_schema :: "string \<Rightarrow> bool \<Rightarrow> bool \<Rightarrow> pydict \<Rightarrow> py_error + pydict" where
  "stamp_schema enriched_date has_picklists has_formulas schema =
     (let schema1 = (if dict_get schema (VStr ''metadata'') = None
                     then dict_set schema (VStr ''metadata'') (VDict []) else schema)
      in case dict_get schema1 (VStr ''metadata'') of
           Some (VDict md) \<Rightarrow>
             Inr (dict_set schema1 (VStr ''metadata'')
                   (VDict (dict_set (dict_set (dict_set md
                      (VStr ''enriched_date'') (VStr enriched_date))
                      (VStr ''has_picklists'') (VBool has_picklists))
                      (VStr ''has_formulas'') (VBool has_formulas))))
         | _ \<Rightarrow> Inl TypeError)"

definition picklists_document :: "string \<Rightarrow> string \<Rightarrow> string \<Rightarrow> pydict \<Rightarrow> document" where
  "picklists_document object_name generated_date header_date picklists =
     \<lparr>header =
        [Comment (''# Picklist Values for '' @ object_name),
         Generated header_date,
         Comment (''# Total Picklist Fields: '' @ str_nat (length picklists)),
         Comment ''#'',
         Comment ''# IMPORTANT: Only ACTIVE picklist values are shown.'',
         Comment ''# Inactive values are excluded to prevent invalid data in code.'',
         Comment ''#'', Comment []],
      body = VDict
        [(VStr ''picklists'', VDict picklists),
         (VStr ''metadata'', VDict
            [(VStr ''object'', VStr object_name),
             (VStr ''generated_date'', VStr generated_date),
             (VStr ''picklist_count'', VInt (int (length picklists))),
             (VStr ''note'', VStr ''Only ACTIVE picklist values are included'')])]\<rparr>"

definition formulas_document :: "string \<Rightarrow> string \<Rightarrow> string \<Rightarrow> pydict \<Rightarrow> document" where
  "formulas_document object_name generated_date header_date formulas =
     \<lparr>header =
        [Comment (''# Formula Definitions for '' @ object_name),
         Generated header_date,
         Comment (''# Total Formula Fields: '' @ str_nat (length formulas)),
         Comment ''#'', Comment []],
      body = VDict
        [(VStr ''formulas'', VDict formulas),
         (VStr ''metadata'', VDict
            [(VStr ''object'', VStr object_name),
             (VStr ''generated_date'', VStr generated_date),
             (VStr ''formula_count'', VInt (int (length formulas)))])]\<rparr>"

text \<open>
  The writing part of \<^verbatim>\<open>enrich_object_schema\<close>. \<^verbatim>\<open>now\<close> gives the successive readings
  of the clock (\<^verbatim>\<open>datetime.now().isoformat()\<close>) in the order the run takes them.
\<close>

definition write_enriched ::
  "(nat \<Rightarrow> string) \<Rightarrow> string \<Rightarrow> bool \<Rightarrow> pydict \<Rightarrow> enrich_state \<Rightarrow> object_files
     \<Rightarrow> py_error + object_files" where
  "write_enriched now object_name is_new_structure schema st files =
     (if is_new_structure
      then (case stamp_schema (now 0) (picklists_data st \<noteq> []) (formulas_data st \<noteq> []) schema of
              Inl e \<Rightarrow> Inl e
            | Inr schema' \<Rightarrow>
                (let files1 = files\<lparr>schema_file := Some \<lparr>header = [], body = VDict schema'\<rparr>\<rparr>;
                     files2 = (if picklists_data st \<noteq> []
                               then files1\<lparr>picklists_file :=
                                      Some (picklists_document object_name (now 1) (now 2)
                                              (picklists_data st))\<rparr>
                               else files1);
                     k = (if picklists_data st \<noteq> [] then 3 else 1);
                     files3 = (if formulas_data st \<noteq> []
                               then files2\<lparr>formulas_file :=
                                      Some (formulas_document object_name (now k) (now (k + 1))
                                              (formulas_data st))\<rparr>
                               else files2)
                 in Inr files3))
      else Inr (files\<lparr>legacy_file := Some \<lparr>header = [], body = VDict schema\<rparr>\<rparr>))"

text \<open>
  \<^verbatim>\<open>schema['object']['fields'] = enriched_fields\<close> after the loop over
  \<^verbatim>\<open>schema.get('object', {}).get('fields', [])\<close>. The result is the updated schema
  and the loop's final state.
\<close>

definition merge_schema ::
  "bool \<Rightarrow> pydict \<Rightarrow> yval \<Rightarrow> py_error + (pydict \<times> enrich_state)" where
  "merge_schema is_new_structure org_fields schema =
     (case attr_get schema (VStr ''object'') (VDict []) of
        Inl e \<Rightarrow> Inl e
      | Inr obj \<Rightarrow>
     (case attr_get obj (VStr ''fields'') (VList []) of
        Inl e \<Rightarrow> Inl e
      | Inr fields_value \<Rightarrow>
     (case py_iter fields_value of
        Inl e \<Rightarrow> Inl e
      | Inr flds \<Rightarrow>
     (case enrich_fields is_new_structure org_fields flds init_enrich_state of
        Inl e \<Rightarrow> Inl e
      | Inr st \<Rightarrow>
     (case schema of
        VDict sd \<Rightarrow>
          (case dict_get sd (VStr ''object'') of
             Some (VDict od) \<Rightarrow>
               Inr (dict_set sd (VStr ''object'')
                      (VDict (dict_set od (VStr ''fields'') (VList (enriched_fields st)))), st)
           | Some _ \<Rightarrow> Inl TypeError
           | None \<Rightarrow> Inl KeyError)
      | _ \<Rightarrow> Inl AttributeError)))))"

text \<open>
  \<^verbatim>\<open>enrich_object_schema(object_name, dry_run)\<close> on the files of the object.
  \<^verbatim>\<open>fetched\<close> is what \<^verbatim>\<open>get_object_metadata\<close> returned: \<^verbatim>\<open>None\<close> after a timeout, a
  CLI error, a malformed response or a non-zero status, else the \<^verbatim>\<open>result\<close> of the
  describe call. The boolean is the return value; an exception ends the whole run.
\<close>

definition enrich_object_schema ::
  "(nat \<Rightarrow> string) \<Rightarrow> string \<Rightarrow> yval option \<Rightarrow> bool \<Rightarrow> object_files
     \<Rightarrow> py_error + (bool \<times> object_files)" where
  "enrich_object_schema now object_name fetched dry_run files =
     (if schema_file files = None \<and> legacy_file files = None then Inr (False, files)
      else
        (let is_new_structure = (schema_file files \<noteq> None);
             working_file = (if is_new_structure then schema_file files else legacy_file files)
         in case fetched of
              None \<Rightarrow> Inr (False, files)
            | Some org_metadata \<Rightarrow>
                if \<not> truthy org_metadata then Inr (False, files)
                else
                  (case working_file of
                     None \<Rightarrow> Inr (False, files)
                   | Some doc \<Rightarrow>
                  (case attr_get org_metadata (VStr ''fields'') (VList []) of
                     Inl e \<Rightarrow> Inl e
                   | Inr org_list \<Rightarrow>
                  (case py_iter org_list of
                     Inl e \<Rightarrow> Inl e
                   | Inr org_items \<Rightarrow>
                  (case build_org_fields org_items [] of
                     Inl e \<Rightarrow> Inl e
                   | Inr org_fields \<Rightarrow>
                  (case merge_schema is_new_structure org_fields (body doc) of
                     Inl e \<Rightarrow> Inl e
                   | Inr (schema, st) \<Rightarrow>
                       if dry_run then Inr (True, files)
                       else
                         (case write_enriched now object_name is_new_structure schema st files of
                            Inl e \<Rightarrow> Inl e
                          | Inr files' \<Rightarrow> Inr (True, files')))))))))"

subsection \<open>Payload content without the times of writing\<close>

text \<open>Replace the value of \<^verbatim>\<open>metadata.<key>\<close> of a dumped document by the empty string.\<close>

definition blank_meta :: "string \<Rightarrow> yval \<Rightarrow> yval" where
  "blank_meta key doc =
     (case doc of
        VDict d \<Rightarrow>
          (case dict_get d (VStr ''metadata'') of
             Some (VDict md) \<Rightarrow>
               (if dict_get md (VStr key) = None then doc
                else VDict (dict_set d (VStr ''metadata'')
                              (VDict (dict_set md (VStr key) (VStr [])))))
           | _ \<Rightarrow> doc)
      | _ \<Rightarrow> doc)"

fun blank_line :: "header_line \<Rightarrow> header_line" where
  "blank_line (Generated t) = Generated []"
| "blank_line (Comment c) = Comment c"



section \<open>Notions the claims are stated with\<close>

subsection \<open>Picklist options of the external source\<close>

text \<open>
  An option of the describe call is \<^verbatim>\<open>{value, active}\<close>. The following follow the
  wording of the specification: an option is well formed when it is a dictionary that
  carries both entries, it is flagged active when its flag is true, and the values of the
  options flagged active are taken in their original order.
\<close>

definition has_value :: "yval \<Rightarrow> bool" where
  "has_value pv = (case pv of VDict d \<Rightarrow> dict_get d (VStr ''value'') \<noteq> None | _ \<Rightarrow> False)"

definition has_flag :: "yval \<Rightarrow> bool" where
  "has_flag pv = (case pv of VDict d \<Rightarrow> dict_get d (VStr ''active'') \<noteq> None | _ \<Rightarrow> False)"

definition option_value :: "yval \<Rightarrow> yval" where
  "option_value pv =
     (case pv of VDict d \<Rightarrow> dict_get_default d (VStr ''value'') VNone | _ \<Rightarrow> VNone)"

definition flagged_active :: "yval \<Rightarrow> bool" where
  "flagged_active pv = (case pv of VDict d \<Rightarrow> has_truthy d (VStr ''active'') | _ \<Rightarrow> False)"

definition flagged_inactive :: "yval \<Rightarrow> bool" where
  "flagged_inactive pv =
     (case pv of
        VDict d \<Rightarrow> (case dict_get d (VStr ''active'') of None \<Rightarrow> False | Some a \<Rightarrow> \<not> truthy a)
      | _ \<Rightarrow> False)"

definition flagged_active_values :: "yval list \<Rightarrow> yval list" where
  "flagged_active_values opts = map option_value (filter flagged_active opts)"

text \<open>What the comprehension of \<^verbatim>\<open>extract_picklist_values\<close> keeps: an option without the
  flag, or with a true flag.\<close>

definition counts_active :: "yval \<Rightarrow> bool" where
  "counts_active pv =
     (case pv of
        VDict d \<Rightarrow> (case dict_get d (VStr ''active'') of None \<Rightarrow> True | Some a \<Rightarrow> truthy a)
      | _ \<Rightarrow> False)"

text \<open>A field of the describe call whose type is picklist or multipicklist.\<close>

definition is_picklist_field :: "pydict \<Rightarrow> bool" where
  "is_picklist_field fm \<longleftrightarrow>
     dict_get fm (VStr ''type'') = Some (VStr ''picklist'')
     \<or> dict_get fm (VStr ''type'') = Some (VStr ''multipicklist'')"

text \<open>The example of the specification: option A active, option B inactive.\<close>

definition example_options :: "yval list" where
  "example_options =
     [VDict [(VStr ''value'', VStr ''A''), (VStr ''active'', VBool True)],
      VDict [(VStr ''value'', VStr ''B''), (VStr ''active'', VBool False)]]"

definition example_picklist_field :: "yval list \<Rightarrow> pydict" where
  "example_picklist_field opts =
     [(VStr ''name'', VStr ''Status''), (VStr ''type'', VStr ''picklist''),
      (VStr ''picklistValues'', VList opts)]"

subsection \<open>Auxiliary notions of the proofs\<close>

text \<open>The keys of a dictionary in normal form, in insertion order.\<close>

definition norm_keys :: "pydict \<Rightarrow> yval list" where
  "norm_keys d = map (\<lambda>p. nkey (fst p)) d"

text \<open>The keys of \<^verbatim>\<open>enriched_data\<close>: pairwise different, each one a fill-missing key.\<close>

definition ed_ok :: "pydict \<Rightarrow> bool" where
  "ed_ok ed \<longleftrightarrow> distinct (norm_keys ed) \<and> set (norm_keys ed) \<subseteq> VStr ` set fill_missing_keys"



subsection \<open>A small object for the Enricher\<close>

text \<open>
  The describe result of an object with the picklist field Status (options A active, B
  inactive) and the text field Name, and the partitioned schema file of the same object.
\<close>

definition example_describe :: yval where
  "example_describe =
     VDict [(VStr ''fields'', VList
       [VDict (example_picklist_field example_options),
        VDict [(VStr ''name'', VStr ''Name''), (VStr ''type'', VStr ''string''),
               (VStr ''label'', VStr ''Account Name''), (VStr ''length'', VInt 255),
               (VStr ''nillable'', VBool False)]])]"

definition example_schema_fields :: "yval list" where
  "example_schema_fields =
     [VDict [(VStr ''api_name'', VStr ''Status''), (VStr ''type'', VStr ''Picklist'')],
      VDict [(VStr ''api_name'', VStr ''Name''), (VStr ''type'', VStr ''Text''),
             (VStr ''label'', VStr ''Name'')]]"

definition example_schema :: yval where
  "example_schema =
     VDict [(VStr ''object'', VDict [(VStr ''api_name'', VStr ''Account''),
                                    (VStr ''fields'', VList example_schema_fields)]),
            (VStr ''metadata'', VDict [(VStr ''has_picklists'', VBool False)])]"

definition example_files :: object_files where
  "example_files =
     \<lparr>schema_file = Some \<lparr>header = [], body = example_schema\<rparr>,
      picklists_file = None, formulas_file = None, legacy_file = None\<rparr>"

definition example_org_fields :: pydict where
  "example_org_fields =
     [(VStr ''Status'', VDict (example_picklist_field example_options)),
      (VStr ''Name'',
       VDict [(VStr ''name'', VStr ''Name''), (VStr ''type'', VStr ''string''),
              (VStr ''label'', VStr ''Account Name''), (VStr ''length'', VInt 255),
              (VStr ''nillable'', VBool False)])]"

section \<open>MetadataParser: \<^verbatim>\<open>generate_sf_er_schema.py\<close>\<close>

subsection \<open>Metadata documents\<close>

text \<open>
  An element of a parsed XML document: namespace, local name, text (\<^verbatim>\<open>None\<close> when the
  element has none) and child elements in document order. What \<^verbatim>\<open>ET.parse\<close> makes of
  a file is a root element, or one of the two failures the parser distinguishes.
\<close>

datatype xml =
  Element (xml_ns: string) (xml_tag: string) (xml_text: "string option") (xml_children: "xml list")

datatype file_content = Malformed | Unreadable | WellFormed xml

record meta_file =
  file_name :: string
  content :: file_content

definition SF_NS :: string where
  "SF_NS = ''http://soap.sforce.com/2006/04/metadata''"

text \<open>\<^verbatim>\<open>elem.iter()\<close>: the element and its descendants in document order.\<close>

fun iter_elem :: "xml \<Rightarrow> xml list" and iter_list :: "xml list \<Rightarrow> xml list" where
  "iter_elem (Element n t x cs) = Element n t x cs # iter_list cs"
| "iter_list [] = []"
| "iter_list (c # cs) = iter_elem c @ iter_list cs"

text \<open>\<^verbatim>\<open>root.findall('.//sf:name', SF_NS)\<close>: the descendants of the element (not the
  element itself) with that name in the metadata namespace, in document order;
  \<^verbatim>\<open>root.find\<close> is the first of them.\<close>

definition findall :: "xml \<Rightarrow> string \<Rightarrow> xml list" where
  "findall root name =
     filter (\<lambda>e. xml_ns e = SF_NS \<and> xml_tag e = name) (iter_list (xml_children root))"

definition find_elem :: "xml \<Rightarrow> string \<Rightarrow> xml option" where
  "find_elem root name = (case findall root name of [] \<Rightarrow> None | e # _ \<Rightarrow> Some e)"

text \<open>\<^verbatim>\<open>x = root.find(...)\<close> under the test \<^verbatim>\<open>x is not None and x.text\<close>: the text of the
  first such element when it has a non-empty one.\<close>

definition find_text :: "xml \<Rightarrow> string \<Rightarrow> string option" where
  "find_text root name =
     (case find_elem root name of
        None \<Rightarrow> None
      | Some e \<Rightarrow> (case xml_text e of None \<Rightarrow> None | Some t \<Rightarrow> if t = [] then None else Some t))"

subsection \<open>Strings\<close>

text \<open>\<^verbatim>\<open>text.lower() == 'true'\<close>, on ASCII letters.\<close>

definition lower_char :: "char \<Rightarrow> char" where
  "lower_char c =
     (if CHR ''A'' \<le> c \<and> c \<le> CHR ''Z'' then char_of (of_char c + (32::nat)) else c)"

definition is_true_text :: "string \<Rightarrow> bool" where
  "is_true_text t \<longleftrightarrow> map lower_char t = ''true''"

text \<open>
  \<^verbatim>\<open>int(text)\<close> for ASCII text: surrounding whitespace is stripped, a sign may lead,
  and the digits may be grouped by single underscores. \<^verbatim>\<open>None\<close> stands for
  ValueError.
\<close>

definition is_space :: "char \<Rightarrow> bool" where
  "is_space c \<longleftrightarrow>
     c \<in> set [CHR '' '', CHR 0x09, CHR 0x0A, CHR 0x0B, CHR 0x0C, CHR 0x0D,
              CHR 0x1C, CHR 0x1D, CHR 0x1E, CHR 0x1F]"

definition strip :: "string \<Rightarrow> string" where
  "strip s = rev (dropWhile is_space (rev (dropWhile is_space s)))"

definition is_digit :: "char \<Rightarrow> bool" where
  "is_digit c \<longleftrightarrow> CHR ''0'' \<le> c \<and> c \<le> CHR ''9''"

definition digit_value :: "char \<Rightarrow> int" where
  "digit_value c = int (of_char c) - 48"

fun digits_value :: "int \<Rightarrow> string \<Rightarrow> int option" where
  "digits_value acc [] = None"
| "digits_value acc [c] = (if is_digit c then Some (10 * acc + digit_value c) else None)"
| "digits_value acc (c # d # cs) =
     (if \<not> is_digit c then None
      else if d = CHR ''_'' then
        (case cs of
           [] \<Rightarrow> None
         | e # es \<Rightarrow> if is_digit e then digits_value (10 * acc + digit_value c) cs else None)
      else digits_value (10 * acc + digit_value c) (d # cs))"

definition py_int :: "string \<Rightarrow> int option" where
  "py_int s =
     (case strip s of
        [] \<Rightarrow> None
      | c # cs \<Rightarrow>
          if c = CHR ''-'' then map_option uminus (digits_value 0 cs)
          else if c = CHR ''+'' then digits_value 0 cs
          else digits_value 0 (c # cs))"

text \<open>\<^verbatim>\<open>Path.stem\<close>: the file name without its last suffix. A name without a dot, with
  its only dot in front, or with a dot at the end has no suffix.\<close>

definition stem :: "string \<Rightarrow> string" where
  "stem name =
     (let suf = takeWhile (\<lambda>c. c \<noteq> CHR ''.'') (rev name)
      in if length suf = length name \<or> suf = [] \<or> Suc (length suf) = length name then name
         else take (length name - length suf - 1) name)"

text \<open>\<^verbatim>\<open>s.endswith(t)\<close> and \<^verbatim>\<open>s.startswith(t)\<close>.\<close>

definition endswith :: "string \<Rightarrow> string \<Rightarrow> bool" where
  "endswith s t \<longleftrightarrow> length t \<le> length s \<and> drop (length s - length t) s = t"

definition startswith :: "string \<Rightarrow> string \<Rightarrow> bool" where
  "startswith s t \<longleftrightarrow> take (length t) s = t"

subsection \<open>\<^verbatim>\<open>SalesforceSchemaParser.parse_field\<close>\<close>

text \<open>
  The assignments of the body, each guarded by the presence of a non-empty text:
  a string attribute, a boolean attribute, and a numeric attribute that is left out
  (with a printed warning) when the text is not a number.
\<close>

definition set_text :: "xml \<Rightarrow> string \<Rightarrow> string \<Rightarrow> pydict \<Rightarrow> pydict" where
  "set_text root name key fd =
     (case find_text root name of Some t \<Rightarrow> dict_set fd (VStr key) (VStr t) | None \<Rightarrow> fd)"

definition set_bool :: "xml \<Rightarrow> string \<Rightarrow> string \<Rightarrow> pydict \<Rightarrow> pydict" where
  "set_bool root name key fd =
     (case find_text root name of
        Some t \<Rightarrow> dict_set fd (VStr key) (VBool (is_true_text t))
      | None \<Rightarrow> fd)"

definition set_int :: "xml \<Rightarrow> string \<Rightarrow> string \<Rightarrow> pydict \<Rightarrow> pydict" where
  "set_int root name key fd =
     (case find_text root name of
        Some t \<Rightarrow> (case py_int t of Some n \<Rightarrow> dict_set fd (VStr key) (VInt n) | None \<Rightarrow> fd)
      | None \<Rightarrow> fd)"

definition is_reference_type :: "pydict \<Rightarrow> bool" where
  "is_reference_type fd \<longleftrightarrow>
     dict_get fd (VStr ''type'') = Some (VStr ''Lookup'')
     \<or> dict_get fd (VStr ''type'') = Some (VStr ''MasterDetail'')"

definition is_picklist_type :: "pydict \<Rightarrow> bool" where
  "is_picklist_type fd \<longleftrightarrow>
     dict_get fd (VStr ''type'') = Some (VStr ''Picklist'')
     \<or> dict_get fd (VStr ''type'') = Some (VStr ''MultiselectPicklist'')"

text \<open>The dictionary appended to the relationships list.\<close>

definition relationship_edge :: "string \<Rightarrow> yval \<Rightarrow> pydict \<Rightarrow> yval" where
  "relationship_edge parent_object field_name fd =
     VDict
       [(VStr ''from_object'', VStr parent_object),
        (VStr ''from_field'', field_name),
        (VStr ''to_object'', dict_get_default fd (VStr ''reference_to'') VNone),
        (VStr ''relationship_type'', dict_get_default fd (VStr ''type'') VNone),
        (VStr ''relationship_name'', dict_get_default fd (VStr ''relationship_name'') (VStr [])),
        (VStr ''delete_constraint'', dict_get_default fd (VStr ''delete_constraint'') (VStr []))]"

text \<open>The texts of the \<^verbatim>\<open>fullName\<close> elements below the first \<^verbatim>\<open>valueSet\<close>.\<close>

definition value_set_names :: "xml \<Rightarrow> yval list" where
  "value_set_names root =
     (case find_elem root ''valueSet'' of
        None \<Rightarrow> []
      | Some value_set \<Rightarrow>
          concat (map (\<lambda>e. case xml_text e of
                                 None \<Rightarrow> []
                               | Some t \<Rightarrow> if t = [] then [] else [VStr t])
                    (findall value_set ''fullName'')))"

text \<open>
  The second \<^verbatim>\<open>try\<close> block of \<^verbatim>\<open>parse_field\<close>, on the root of a parsed document:
  the field dictionary and the relationships list, which grows by one edge for a
  reference-typed field with a reference target. No operation of the block raises on a
  parsed tree, so its handler (the placeholder with \<^verbatim>\<open>parse_error\<close>) has no branch here.
\<close>

definition extract_field :: "xml \<Rightarrow> string \<Rightarrow> string \<Rightarrow> yval list \<Rightarrow> pydict \<times> yval list" where
  "extract_field root file_stem parent_object relationships =
     (let field_name = VStr (case find_text root ''fullName'' of Some t \<Rightarrow> t | None \<Rightarrow> file_stem);
          fd = [(VStr ''api_name'', field_name)];
          fd = set_text root ''label'' ''label'' fd;
          fd = set_text root ''type'' ''type'' fd;
          fd = set_text root ''description'' ''description'' fd;
          fd = set_text root ''inlineHelpText'' ''help_text'' fd;
          fd = set_bool root ''required'' ''required'' fd;
          fd = set_bool root ''unique'' ''unique'' fd;
          fd = set_bool root ''externalId'' ''external_id'' fd;
          fd = set_int root ''length'' ''length'' fd;
          fd = set_int root ''precision'' ''precision'' fd;
          fd = set_int root ''scale'' ''scale'' fd;
          (fd, relationships') =
            (if is_reference_type fd
             then (let fd = set_text root ''referenceTo'' ''reference_to'' fd;
                       fd = set_text root ''relationshipName'' ''relationship_name'' fd;
                       fd = set_text root ''relationshipLabel'' ''relationship_label'' fd;
                       fd = set_text root ''deleteConstraint'' ''delete_constraint'' fd
                   in (fd, if dict_get fd (VStr ''reference_to'') \<noteq> None
                           then relationships @ [relationship_edge parent_object field_name fd]
                           else relationships))
             else (fd, relationships));
          fd = (if is_picklist_type fd \<and> value_set_names root \<noteq> []
                then dict_set fd (VStr ''picklist_values'') (VList (value_set_names root))
                else fd);
          fd = set_text root ''formula'' ''formula'' fd;
          fd = set_text root ''defaultValue'' ''default_value'' fd
      in (fd, relationships'))"

text \<open>\<^verbatim>\<open>parse_field(field_file, parent_object)\<close>: \<^verbatim>\<open>None\<close> when \<^verbatim>\<open>ET.parse\<close> fails.\<close>

definition parse_field :: "meta_file \<Rightarrow> string \<Rightarrow> yval list \<Rightarrow> pydict option \<times> yval list" where
  "parse_field field_file parent_object relationships =
     (case content field_file of
        WellFormed root \<Rightarrow>
          (let (fd, relationships') =
                 extract_field root (stem (file_name field_file)) parent_object relationships
           in (Some fd, relationships'))
      | _ \<Rightarrow> (None, relationships))"

subsection \<open>Record types and validation rules\<close>

definition parse_record_type :: "meta_file \<Rightarrow> pydict option" where
  "parse_record_type rt_file =
     (case content rt_file of
        WellFormed root \<Rightarrow>
          Some (let rt = [(VStr ''api_name'',
                           VStr (case find_text root ''fullName'' of
                                   Some t \<Rightarrow> t | None \<Rightarrow> stem (file_name rt_file)))];
                    rt = set_text root ''label'' ''label'' rt;
                    rt = set_text root ''description'' ''description'' rt;
                    rt = set_bool root ''active'' ''active'' rt
                in rt)
      | _ \<Rightarrow> None)"

definition parse_validation_rule :: "meta_file \<Rightarrow> pydict option" where
  "parse_validation_rule vr_file =
     (case content vr_file of
        WellFormed root \<Rightarrow>
          Some (let vr = [(VStr ''name'',
                           VStr (case find_text root ''fullName'' of
                                   Some t \<Rightarrow> t | None \<Rightarrow> stem (file_name vr_file)))];
                    vr = set_bool root ''active'' ''active'' vr;
                    vr = set_text root ''description'' ''description'' vr;
                    vr = set_text root ''errorConditionFormula'' ''error_condition_formula'' vr;
                    vr = set_text root ''errorDisplayField'' ''error_display_field'' vr;
                    vr = set_text root ''errorMessage'' ''error_message'' vr
                in vr)
      | _ \<Rightarrow> None)"

subsection \<open>\<^verbatim>\<open>SalesforceSchemaParser.parse_object\<close>\<close>

text \<open>
  An object directory: its name, the descriptor \<^verbatim>\<open><name>.object-meta.xml\<close> when it
  exists, and for each of \<^verbatim>\<open>fields\<close>, \<^verbatim>\<open>recordTypes\<close> and \<^verbatim>\<open>validationRules\<close> the
  files the glob finds, in the order the file system enumerates them (\<^verbatim>\<open>None\<close> when
  the subdirectory does not exist).
\<close>

record object_dir =
  dir_name :: string
  descriptor :: "file_content option"
  field_files :: "meta_file list option"
  record_type_files :: "meta_file list option"
  validation_rule_files :: "meta_file list option"

definition object_type :: "string \<Rightarrow> string" where
  "object_type obj_name =
     (if \<not> endswith obj_name ''__c'' \<and> \<not> endswith obj_name ''__mdt''
         \<and> \<not> endswith obj_name ''__e'' then ''Standard''
      else if endswith obj_name ''__mdt'' then ''CustomMetadata''
      else if endswith obj_name ''__e'' then ''PlatformEvent''
      else ''Custom'')"

text \<open>The descriptor gives the label (the object name by default) and the description.\<close>

definition set_descriptor :: "string \<Rightarrow> file_content option \<Rightarrow> pydict \<Rightarrow> pydict" where
  "set_descriptor obj_name d obj_data =
     (case d of
        Some (WellFormed root) \<Rightarrow>
          set_text root ''description'' ''description''
            (dict_set obj_data (VStr ''label'')
               (VStr (case find_text root ''label'' of Some t \<Rightarrow> t | None \<Rightarrow> obj_name)))
      | _ \<Rightarrow> dict_set obj_data (VStr ''label'') (VStr obj_name))"

text \<open>\<^verbatim>\<open>sorted(files)\<close>: paths of one directory are ordered by file name.\<close>

definition sorted_files :: "meta_file list option \<Rightarrow> meta_file list" where
  "sorted_files fs = (case fs of None \<Rightarrow> [] | Some files \<Rightarrow> sort_key file_name files)"

text \<open>The loop over the field files: a result that is \<^verbatim>\<open>None\<close> (or an empty
  dictionary) is not appended.\<close>

fun parse_fields :: "meta_file list \<Rightarrow> string \<Rightarrow> yval list \<times> yval list \<Rightarrow> yval list \<times> yval list" where
  "parse_fields [] obj_name acc = acc"
| "parse_fields (f # fs) obj_name (flds, rels) =
     (case parse_field f obj_name rels of
        (Some fd, rels') \<Rightarrow>
          parse_fields fs obj_name (if fd \<noteq> [] then flds @ [VDict fd] else flds, rels')
      | (None, rels') \<Rightarrow> parse_fields fs obj_name (flds, rels'))"

definition parse_items :: "(meta_file \<Rightarrow> pydict option) \<Rightarrow> meta_file list \<Rightarrow> yval list" where
  "parse_items parse files =
     concat (map (\<lambda>f. case parse f of
                         Some d \<Rightarrow> if d \<noteq> [] then [VDict d] else []
                       | None \<Rightarrow> []) files)"

text \<open>\<^verbatim>\<open>parse_object(obj_dir)\<close>: the object dictionary and the relationships list.\<close>

definition parse_object :: "object_dir \<Rightarrow> yval list \<Rightarrow> pydict \<times> yval list" where
  "parse_object obj_dir relationships =
     (let obj_name = dir_name obj_dir;
          obj_data = [(VStr ''api_name'', VStr obj_name),
                      (VStr ''type'', VStr (object_type obj_name)),
                      (VStr ''fields'', VList []),
                      (VStr ''record_types'', VList []),
                      (VStr ''validation_rules'', VList [])];
          obj_data = set_descriptor obj_name (descriptor obj_dir) obj_data;
          (flds, relationships') =
             parse_fields (sorted_files (field_files obj_dir)) obj_name ([], relationships);
          obj_data = dict_set obj_data (VStr ''fields'') (VList flds);
          obj_data = dict_set obj_data (VStr ''record_types'')
                       (VList (parse_items parse_record_type
                                 (sorted_files (record_type_files obj_dir))));
          obj_data = dict_set obj_data (VStr ''validation_rules'')
                       (VList (parse_items parse_validation_rule
                                 (sorted_files (validation_rule_files obj_dir))))
      in (obj_data, relationships'))"

subsection \<open>\<^verbatim>\<open>parse_all_objects\<close> and \<^verbatim>\<open>save_yaml\<close>\<close>

text \<open>
  What is found at the objects path: nothing, something that is not a directory, a
  directory that cannot be listed, or the entries of the directory in the order the file
  system enumerates them.
\<close>

datatype dir_entry = PlainFile string | ObjectDir object_dir

datatype objects_root = NoSuchPath | NotADirectory | Unlistable | Listing "dir_entry list"

fun entry_dirs :: "dir_entry list \<Rightarrow> object_dir list" where
  "entry_dirs [] = []"
| "entry_dirs (PlainFile n # es) = entry_dirs es"
| "entry_dirs (ObjectDir d # es) = d # entry_dirs es"

record parser_schema =
  generated_date :: string
  source_path :: string
  total_objects :: nat
  objects :: "yval list"
  relationships :: "yval list"

text \<open>\<^verbatim>\<open>__init__\<close>: the time of creation is stored in the metadata.\<close>

definition init_schema :: "string \<Rightarrow> string \<Rightarrow> parser_schema" where
  "init_schema now objects_path =
     \<lparr>generated_date = now, source_path = objects_path, total_objects = 0,
      objects = [], relationships = []\<rparr>"

fun parse_dirs :: "object_dir list \<Rightarrow> parser_schema \<Rightarrow> parser_schema" where
  "parse_dirs [] s = s"
| "parse_dirs (d # ds) s =
     (let (obj_data, rels) = parse_object d (relationships s)
      in parse_dirs ds
           (s\<lparr>objects := (if obj_data \<noteq> [] then objects s @ [VDict obj_data] else objects s),
              relationships := rels\<rparr>))"

text \<open>\<^verbatim>\<open>parse_all_objects()\<close>: the return value and the schema.\<close>

definition parse_all_objects :: "objects_root \<Rightarrow> parser_schema \<Rightarrow> bool \<times> parser_schema" where
  "parse_all_objects root s =
     (case root of
        Listing entries \<Rightarrow>
          (if entry_dirs entries = [] then (True, s)
           else (let s' = parse_dirs (sort_key dir_name (entry_dirs entries)) s
                 in (True, s'\<lparr>total_objects := length (objects s')\<rparr>)))
      | _ \<Rightarrow> (False, s))"

text \<open>The value \<^verbatim>\<open>save_yaml\<close> dumps, and the file it writes.\<close>

definition schema_value :: "parser_schema \<Rightarrow> yval" where
  "schema_value s =
     VDict [(VStr ''salesforce_schema'', VDict
       [(VStr ''metadata'', VDict
           [(VStr ''generated_date'', VStr (generated_date s)),
            (VStr ''source_path'', VStr (source_path s)),
            (VStr ''total_objects'', VInt (int (total_objects s)))]),
        (VStr ''objects'', VList (objects s)),
        (VStr ''relationships'', VList (relationships s))])]"

definition save_yaml :: "parser_schema \<Rightarrow> document" where
  "save_yaml s =
     \<lparr>header =
        [Comment ''# Salesforce Entity-Relationship Schema'',
         Comment ''# Auto-generated ER schema for AI agents to understand data model relationships'',
         Generated (generated_date s),
         Comment ''#'',
         Comment ''# This document provides:'',
         Comment ''# - Complete object definitions with all fields'',
         Comment ''# - Relationship mappings (Lookup, Master-Detail)'',
         Comment ''# - Record types and validation rules'',
         Comment ''# - Field metadata (types, descriptions, constraints)'',
         Comment ''#'',
         Comment ''# Usage:'',
         Comment ''#   AI agents can use this schema to:'',
         Comment ''#   - Understand object relationships for writing SOQL queries'',
         Comment ''#   - Identify available fields and their types'',
         Comment ''#   - Reference validation rules and record types'',
         Comment ''#   - Build code that respects the data model structure'',
         Comment ''#'', Comment []],
      body = schema_value s\<rparr>"

text \<open>
  The parse-and-save pipeline of \<^verbatim>\<open>main\<close>: the parser is created at time \<^verbatim>\<open>now\<close>,
  parses the tree and, unless parsing failed, writes the document.
\<close>

definition generate_schema :: "string \<Rightarrow> string \<Rightarrow> objects_root \<Rightarrow> document option" where
  "generate_schema now objects_path root =
     (case parse_all_objects root (init_schema now objects_path) of
        (True, s) \<Rightarrow> Some (save_yaml s)
      | (False, s) \<Rightarrow> None)"

section \<open>Splitter, IndexBuilder and Categorizer: \<^verbatim>\<open>split_schema_by_object.py\<close>\<close>

subsection \<open>\<^verbatim>\<open>SchemaOptimizer._extract_field_metadata\<close>\<close>

definition picklist_note :: "string \<Rightarrow> yval" where
  "picklist_note obj_name =
     VStr (''Picklist values available in config/schema/objects/'' @ obj_name @ ''/picklists.yaml'')"

definition formula_note :: "string \<Rightarrow> yval" where
  "formula_note obj_name =
     VStr (''Formula definition available in config/schema/objects/'' @ obj_name @ ''/formulas.yaml'')"

text \<open>
  The body of the loop for one field dictionary: the name under which values are filed,
  the entry of \<^verbatim>\<open>picklists\<close> and of \<^verbatim>\<open>formulas\<close> it adds (if any), and the core field.
\<close>

definition field_name_of :: "pydict \<Rightarrow> yval" where
  "field_name_of field = dict_get_default field (VStr ''api_name'') (VStr [])"

definition core_field_of :: "string \<Rightarrow> pydict \<Rightarrow> pydict" where
  "core_field_of obj_name field =
     (let core_field = field;
          core_field =
            (if has_truthy field (VStr ''picklist_values'')
             then dict_set (dict_pop core_field (VStr ''picklist_values'')) (VStr ''_note'')
                    (picklist_note obj_name)
             else core_field);
          core_field =
            (if has_truthy field (VStr ''formula'')
             then dict_set (dict_pop core_field (VStr ''formula'')) (VStr ''_note'')
                    (formula_note obj_name)
             else core_field)
      in core_field)"

text \<open>
  The loop with its three accumulators. A field that is not a dictionary has no
  \<^verbatim>\<open>get\<close>; filing a value under an unhashable name raises TypeError.
\<close>

fun extract_loop ::
  "yval list \<Rightarrow> string \<Rightarrow> pydict \<times> pydict \<times> yval list
     \<Rightarrow> py_error + (pydict \<times> pydict \<times> yval list)" where
  "extract_loop [] obj_name acc = Inr acc"
| "extract_loop (fld # flds) obj_name (picklists, formulas, core_fields) =
     (case fld of
        VDict field \<Rightarrow>
          (if (has_truthy field (VStr ''picklist_values'') \<or> has_truthy field (VStr ''formula''))
              \<and> \<not> hashable (field_name_of field)
           then Inl TypeError
           else extract_loop flds obj_name
                  (if has_truthy field (VStr ''picklist_values'')
                   then dict_set picklists (field_name_of field)
                          (dict_get_default field (VStr ''picklist_values'') VNone)
                   else picklists,
                   if has_truthy field (VStr ''formula'')
                   then dict_set formulas (field_name_of field)
                          (dict_get_default field (VStr ''formula'') VNone)
                   else formulas,
                   core_fields @ [VDict (core_field_of obj_name field)]))
      | _ \<Rightarrow> Inl AttributeError)"

definition extract_field_metadata ::
  "yval list \<Rightarrow> string \<Rightarrow> py_error + (pydict \<times> pydict \<times> yval list)" where
  "extract_field_metadata flds obj_name = extract_loop flds obj_name ([], [], [])"

subsection \<open>\<^verbatim>\<open>SchemaOptimizer.split_objects\<close>\<close>

text \<open>What \<^verbatim>\<open>load_schema\<close> keeps of the schema file, and the input path.\<close>

record schema_optimizer =
  input_file :: string
  loaded_metadata :: yval
  loaded_objects :: "yval list"
  loaded_relationships :: "yval list"

text \<open>\<^verbatim>\<open>_get_relationships_for_object\<close>: the edges that start or end at the object.\<close>

fun related_relationships :: "yval list \<Rightarrow> string \<Rightarrow> py_error + yval list" where
  "related_relationships [] obj_name = Inr []"
| "related_relationships (rel # rels) obj_name =
     (case rel of
        VDict r \<Rightarrow>
          (case related_relationships rels obj_name of
             Inl e \<Rightarrow> Inl e
           | Inr related \<Rightarrow>
               Inr (if dict_get r (VStr ''from_object'') = Some (VStr obj_name)
                       \<or> dict_get r (VStr ''to_object'') = Some (VStr obj_name)
                    then rel # related else related))
      | _ \<Rightarrow> Inl AttributeError)"

text \<open>
  The three payloads of one object: the dumped value of \<^verbatim>\<open>schema.yaml\<close>, and of
  \<^verbatim>\<open>picklists.yaml\<close> and \<^verbatim>\<open>formulas.yaml\<close> when they are written. The comment header
  of the files is not part of the payloads.
\<close>

record partition =
  core_schema :: yval
  picklist_payload :: "yval option"
  formula_payload :: "yval option"

text \<open>
  The body of the loop of \<^verbatim>\<open>split_objects\<close> for one object dictionary, at time
  \<^verbatim>\<open>now\<close>. An exception is caught by the loop, which reports it and goes on with the
  next object. The folder name must be a string (\<^verbatim>\<open>objects_dir / obj_name\<close>).
\<close>

definition split_object :: "schema_optimizer \<Rightarrow> (nat \<Rightarrow> string) \<Rightarrow> pydict \<Rightarrow> py_error + partition" where
  "split_object opt now obj =
     (case dict_get_default obj (VStr ''api_name'') (VStr ''Unknown'') of
        VStr obj_name \<Rightarrow>
          (case py_iter (dict_get_default obj (VStr ''fields'') (VList [])) of
             Inl e \<Rightarrow> Inl e
           | Inr flds \<Rightarrow>
          (case extract_field_metadata flds obj_name of
             Inl e \<Rightarrow> Inl e
           | Inr (picklists, formulas, core_fields) \<Rightarrow>
          (case related_relationships (loaded_relationships opt) obj_name of
             Inl e \<Rightarrow> Inl e
           | Inr related \<Rightarrow>
          (case attr_get (loaded_metadata opt) (VStr ''generated_date'') (VStr []) of
             Inl e \<Rightarrow> Inl e
           | Inr original_date \<Rightarrow>
               Inr \<lparr>core_schema = VDict
                      [(VStr ''object'', VDict
                          [(VStr ''api_name'', dict_get_default obj (VStr ''api_name'') VNone),
                           (VStr ''type'', dict_get_default obj (VStr ''type'') VNone),
                           (VStr ''label'', dict_get_default obj (VStr ''label'') VNone),
                           (VStr ''description'', dict_get_default obj (VStr ''description'') VNone),
                           (VStr ''fields'', VList core_fields),
                           (VStr ''record_types'',
                              dict_get_default obj (VStr ''record_types'') (VList [])),
                           (VStr ''validation_rules'',
                              dict_get_default obj (VStr ''validation_rules'') (VList []))]),
                       (VStr ''related_relationships'', VList related),
                       (VStr ''metadata'', VDict
                          [(VStr ''split_from'', VStr (input_file opt)),
                           (VStr ''generated_date'', VStr (now 0)),
                           (VStr ''original_schema_date'', original_date),
                           (VStr ''has_picklists'', VBool (picklists \<noteq> [])),
                           (VStr ''has_formulas'', VBool (formulas \<noteq> []))])],
                    picklist_payload =
                      (if picklists \<noteq> []
                       then Some (VDict
                              [(VStr ''picklists'', VDict picklists),
                               (VStr ''metadata'', VDict
                                  [(VStr ''object'', VStr obj_name),
                                   (VStr ''generated_date'', VStr (now 2)),
                                   (VStr ''picklist_count'', VInt (int (length picklists)))])])
                       else None),
                    formula_payload =
                      (if formulas \<noteq> []
                       then Some (VDict
                              [(VStr ''formulas'', VDict formulas),
                               (VStr ''metadata'', VDict
                                  [(VStr ''object'', VStr obj_name),
                                   (VStr ''generated_date'',
                                    VStr (now (if picklists \<noteq> [] then 4 else 2))),
                                   (VStr ''formula_count'', VInt (int (length formulas)))])])
                       else None)\<rparr>))))
      | _ \<Rightarrow> Inl TypeError)"

subsection \<open>\<^verbatim>\<open>SchemaOptimizer.create_search_index\<close>\<close>

text \<open>The entry of one field in the search index, as the Splitter of the partitioned
  layout (\<^verbatim>\<open>src/salesforce/scripts\<close>) builds it.\<close>

definition search_field_info :: "pydict \<Rightarrow> pydict" where
  "search_field_info field =
     (let field_info =
            [(VStr ''name'', dict_get_default field (VStr ''api_name'') (VStr [])),
             (VStr ''type'', dict_get_default field (VStr ''type'') (VStr [])),
             (VStr ''required'', dict_get_default field (VStr ''required'') (VBool False))];
          field_info = (if has_truthy field (VStr ''picklist_values'')
                        then dict_set field_info (VStr ''has_picklist_values'') (VBool True)
                        else field_info);
          field_info = (if has_truthy field (VStr ''formula'')
                        then dict_set field_info (VStr ''has_formula'') (VBool True)
                        else field_info);
          field_info = (case dict_get field (VStr ''reference_to'') of
                          Some v \<Rightarrow> dict_set field_info (VStr ''reference_to'') v
                        | None \<Rightarrow> field_info);
          field_info = (case dict_get field (VStr ''length'') of
                          Some v \<Rightarrow> dict_set field_info (VStr ''length'') v
                        | None \<Rightarrow> field_info)
      in field_info)"

text \<open>The same entry as the older single-file Splitter (\<^verbatim>\<open>src/scripts\<close>) builds it:
  it copies the picklist values and has no presence flags.\<close>

definition legacy_search_field_info :: "pydict \<Rightarrow> pydict" where
  "legacy_search_field_info field =
     (let field_info =
            [(VStr ''name'', dict_get_default field (VStr ''api_name'') (VStr [])),
             (VStr ''type'', dict_get_default field (VStr ''type'') (VStr [])),
             (VStr ''required'', dict_get_default field (VStr ''required'') (VBool False))];
          field_info = (case dict_get field (VStr ''picklist_values'') of
                          Some v \<Rightarrow> dict_set field_info (VStr ''picklist_values'') v
                        | None \<Rightarrow> field_info);
          field_info = (case dict_get field (VStr ''reference_to'') of
                          Some v \<Rightarrow> dict_set field_info (VStr ''reference_to'') v
                        | None \<Rightarrow> field_info);
          field_info = (case dict_get field (VStr ''length'') of
                          Some v \<Rightarrow> dict_set field_info (VStr ''length'') v
                        | None \<Rightarrow> field_info)
      in field_info)"

text \<open>The loop over the fields of one object, for either Splitter.\<close>

fun search_fields_list :: "(pydict \<Rightarrow> pydict) \<Rightarrow> yval list \<Rightarrow> py_error + yval list" where
  "search_fields_list info [] = Inr []"
| "search_fields_list info (fld # flds) =
     (case fld of
        VDict field \<Rightarrow>
          (case search_fields_list info flds of
             Inl e \<Rightarrow> Inl e
           | Inr fields_list \<Rightarrow> Inr (VDict (info field) # fields_list))
      | _ \<Rightarrow> Inl AttributeError)"

text \<open>The fields of one object's entry in the search index.\<close>

definition search_index_fields :: "(pydict \<Rightarrow> pydict) \<Rightarrow> yval \<Rightarrow> py_error + yval list" where
  "search_index_fields info obj =
     (case attr_get obj (VStr ''fields'') (VList []) of
        Inl e \<Rightarrow> Inl e
      | Inr fields_value \<Rightarrow>
          (case py_iter fields_value of
             Inl e \<Rightarrow> Inl e
           | Inr flds \<Rightarrow> search_fields_list info flds))"

subsection \<open>\<^verbatim>\<open>SchemaOptimizer.create_categorized_schemas\<close>\<close>

definition CATEGORIES :: "(string \<times> string list) list" where
  "CATEGORIES =
     [(''core'', [''Account'', ''Contact'', ''Lead'', ''User'', ''Group'', ''Profile'']),
      (''sales'', [''Opportunity'', ''Quote'', ''Contract'', ''Order'', ''Product2'',
                   ''PricebookEntry'', ''OpportunityLineItem'', ''QuoteLineItem'', ''OrderItem'']),
      (''service'', [''Case'', ''Solution'', ''Entitlement'', ''ServiceContract'', ''WorkOrder'',
                     ''WorkOrderLineItem'', ''ServiceAppointment'']),
      (''marketing'', [''Campaign'', ''CampaignMember'', ''Lead'']),
      (''activities'', [''Task'', ''Event'', ''EmailMessage'']),
      (''healthcare'', []),
      (''custom'', []),
      (''other'', [])]"

text \<open>The loop over the rule table: the first category whose list has the name.\<close>

fun find_category :: "(string \<times> string list) list \<Rightarrow> yval \<Rightarrow> string option" where
  "find_category [] obj_name = None"
| "find_category ((category, obj_list) # cats) obj_name =
     (if obj_name \<in> VStr ` set obj_list then Some category else find_category cats obj_name)"

text \<open>The category of an object name. A name outside every list must be a string
  (\<^verbatim>\<open>obj_name.startswith\<close>).\<close>

definition category_of :: "(string \<times> string list) list \<Rightarrow> yval \<Rightarrow> py_error + string" where
  "category_of cats obj_name =
     (case find_category cats obj_name of
        Some category \<Rightarrow> Inr category
      | None \<Rightarrow>
          (case obj_name of
             VStr n \<Rightarrow>
               Inr (if startswith n ''HealthCloudGA__'' then ''healthcare''
                    else if endswith n ''__c'' then ''custom''
                    else ''other'')
           | _ \<Rightarrow> Inl AttributeError))"

text \<open>\<^verbatim>\<open>categorized[category].append(obj)\<close> on the \<^verbatim>\<open>defaultdict(list)\<close>.\<close>

definition bucket :: "pydict \<Rightarrow> string \<Rightarrow> yval list" where
  "bucket categorized category =
     (case dict_get categorized (VStr category) of Some (VList os) \<Rightarrow> os | _ \<Rightarrow> [])"

definition bucket_append :: "pydict \<Rightarrow> string \<Rightarrow> yval \<Rightarrow> pydict" where
  "bucket_append categorized category obj =
     dict_set categorized (VStr category) (VList (bucket categorized category @ [obj]))"

text \<open>The loop over the objects.\<close>

fun categorize :: "(string \<times> string list) list \<Rightarrow> yval list \<Rightarrow> pydict \<Rightarrow> py_error + pydict" where
  "categorize cats [] categorized = Inr categorized"
| "categorize cats (obj # objs) categorized =
     (case attr_get obj (VStr ''api_name'') (VStr []) of
        Inl e \<Rightarrow> Inl e
      | Inr obj_name \<Rightarrow>
          (case category_of cats obj_name of
             Inl e \<Rightarrow> Inl e
           | Inr category \<Rightarrow> categorize cats objs (bucket_append categorized category obj)))"

subsection \<open>Notions of the claims about the Splitter and the Categorizer\<close>

text \<open>
  Reconstruction of a field from the three payloads, in the words of the
  specification: the core entry without its annotation, with the picklist entry and the
  formula entry filed under the field's name attached again when they exist.
\<close>

definition reconstruct_field :: "pydict \<Rightarrow> pydict \<Rightarrow> pydict \<Rightarrow> pydict" where
  "reconstruct_field core_field picklists formulas =
     (let r = dict_pop core_field (VStr ''_note'');
          r = (case dict_get picklists (field_name_of core_field) of
                 Some v \<Rightarrow> dict_set r (VStr ''picklist_values'') v
               | None \<Rightarrow> r);
          r = (case dict_get formulas (field_name_of core_field) of
                 Some v \<Rightarrow> dict_set r (VStr ''formula'') v
               | None \<Rightarrow> r)
      in r)"

text \<open>The entries of a payload file (none when the file is not written), and the core
  fields of the schema payload.\<close>

definition payload_entries :: "string \<Rightarrow> yval option \<Rightarrow> pydict" where
  "payload_entries key payload =
     (case payload of
        Some (VDict d) \<Rightarrow> (case dict_get d (VStr key) of Some (VDict entries) \<Rightarrow> entries | _ \<Rightarrow> [])
      | _ \<Rightarrow> [])"

definition core_fields_of :: "yval \<Rightarrow> yval list" where
  "core_fields_of schema =
     (case schema of
        VDict d \<Rightarrow>
          (case dict_get d (VStr ''object'') of
             Some (VDict od) \<Rightarrow>
               (case dict_get od (VStr ''fields'') of Some (VList fs) \<Rightarrow> fs | _ \<Rightarrow> [])
           | _ \<Rightarrow> [])
      | _ \<Rightarrow> [])"

text \<open>The names under which the fields of an object are filed, as dictionary keys.\<close>

definition field_keys :: "yval list \<Rightarrow> yval list" where
  "field_keys flds =
     map (\<lambda>fld. case fld of VDict field \<Rightarrow> nkey (field_name_of field) | _ \<Rightarrow> VNone) flds"

text \<open>The keys a search-index entry may have, and those of the older Splitter.\<close>

definition search_keys :: "string list" where
  "search_keys = [''name'', ''type'', ''required'', ''has_picklist_values'', ''has_formula'',
                  ''reference_to'', ''length'']"

definition legacy_search_keys :: "string list" where
  "legacy_search_keys = [''name'', ''type'', ''required'', ''picklist_values'',
                         ''reference_to'', ''length'']"

definition is_flag :: "yval option \<Rightarrow> bool" where
  "is_flag v \<longleftrightarrow> v = None \<or> v = Some (VBool True)"

definition lean_entry :: "yval \<Rightarrow> bool" where
  "lean_entry entry =
     (case entry of
        VDict info \<Rightarrow>
          set (map fst info) \<subseteq> VStr ` set search_keys
          \<and> dict_get info (VStr ''picklist_values'') = None
          \<and> dict_get info (VStr ''formula'') = None
          \<and> is_flag (dict_get info (VStr ''has_picklist_values''))
          \<and> is_flag (dict_get info (VStr ''has_formula''))
      | _ \<Rightarrow> False)"

text \<open>
  The category of a name in the words of the specification: the first membership list,
  in the priority order core, sales, service, marketing, activities, that has the name;
  else healthcare for the namespace prefix; else custom for the suffix; else other.
\<close>

definition spec_category :: "string \<Rightarrow> string" where
  "spec_category n =
     (if n \<in> set [''Account'', ''Contact'', ''Lead'', ''User'', ''Group'', ''Profile''] then ''core''
      else if n \<in> set [''Opportunity'', ''Quote'', ''Contract'', ''Order'', ''Product2'',
                        ''PricebookEntry'', ''OpportunityLineItem'', ''QuoteLineItem'',
                        ''OrderItem''] then ''sales''
      else if n \<in> set [''Case'', ''Solution'', ''Entitlement'', ''ServiceContract'',
                        ''WorkOrder'', ''WorkOrderLineItem'', ''ServiceAppointment'']
           then ''service''
      else if n \<in> set [''Campaign'', ''CampaignMember'', ''Lead''] then ''marketing''
      else if n \<in> set [''Task'', ''Event'', ''EmailMessage''] then ''activities''
      else if startswith n ''HealthCloudGA__'' then ''healthcare''
      else if endswith n ''__c'' then ''custom''
      else ''other'')"

text \<open>The name of an object dictionary, when it is a string.\<close>

definition object_name_of :: "yval \<Rightarrow> string option" where
  "object_name_of obj =
     (case obj of
        VDict d \<Rightarrow> (case dict_get_default d (VStr ''api_name'') (VStr []) of
                      VStr n \<Rightarrow> Some n | _ \<Rightarrow> None)
      | _ \<Rightarrow> None)"

text \<open>The core entry the loop appends for an element of the field list.\<close>

definition core_entry :: "string \<Rightarrow> yval \<Rightarrow> yval" where
  "core_entry obj_name fld = (case fld of VDict field \<Rightarrow> VDict (core_field_of obj_name field) | _ \<Rightarrow> fld)"

text \<open>The objects of a category: those whose name the rule table sends there.\<close>

definition has_category :: "(string \<times> string list) list \<Rightarrow> string \<Rightarrow> yval \<Rightarrow> bool" where
  "has_category cats c obj =
     (case attr_get obj (VStr ''api_name'') (VStr []) of
        Inr n \<Rightarrow> category_of cats n = Inr c
      | Inl e \<Rightarrow> False)"

subsection \<open>A small schema for the Splitter\<close>

text \<open>
  The object Account of the specification's scenario, with the picklist field Status
  (values Open and Closed), a formula field and a plain field; and objects of several
  categories.
\<close>

definition status_field :: pydict where
  "status_field =
     [(VStr ''api_name'', VStr ''Status''), (VStr ''type'', VStr ''Picklist''),
      (VStr ''picklist_values'', VList [VStr ''Open'', VStr ''Closed''])]"

definition example_fields :: "yval list" where
  "example_fields =
     [VDict status_field,
      VDict [(VStr ''api_name'', VStr ''Total__c''), (VStr ''type'', VStr ''Number''),
             (VStr ''formula'', VStr ''Amount__c * 2'')],
      VDict [(VStr ''api_name'', VStr ''Name''), (VStr ''type'', VStr ''Text''),
             (VStr ''length'', VInt 80)]]"

definition example_object :: pydict where
  "example_object =
     [(VStr ''api_name'', VStr ''Account''), (VStr ''type'', VStr ''Standard''),
      (VStr ''fields'', VList example_fields), (VStr ''record_types'', VList []),
      (VStr ''validation_rules'', VList []), (VStr ''label'', VStr ''Account'')]"

definition example_optimizer :: schema_optimizer where
  "example_optimizer =
     \<lparr>input_file = ''config/salesforce-er-schema.yaml'',
      loaded_metadata = VDict [(VStr ''generated_date'', VStr ''2024-01-01'')],
      loaded_objects = [VDict example_object],
      loaded_relationships = []\<rparr>"

definition named_object :: "string \<Rightarrow> yval" where
  "named_object n = VDict [(VStr ''api_name'', VStr n)]"

definition example_objects :: "yval list" where
  "example_objects =
     [named_object ''Account'', named_object ''Lead'', named_object ''Case'',
      named_object ''Invoice__c'', named_object ''HealthCloudGA__Plan__c'',
      named_object ''Asset'']"

subsection \<open>Notions of the claims about the parser, and of their proofs\<close>

text \<open>The field dictionary after the basic attributes, before the relationship block.\<close>

definition basic_field :: "xml \<Rightarrow> string \<Rightarrow> pydict" where
  "basic_field root file_stem =
     set_int root ''scale'' ''scale''
      (set_int root ''precision'' ''precision''
        (set_int root ''length'' ''length''
          (set_bool root ''externalId'' ''external_id''
            (set_bool root ''unique'' ''unique''
              (set_bool root ''required'' ''required''
                (set_text root ''inlineHelpText'' ''help_text''
                  (set_text root ''description'' ''description''
                    (set_text root ''type'' ''type''
                      (set_text root ''label'' ''label''
                        [(VStr ''api_name'',
                          VStr (case find_text root ''fullName'' of
                                  Some t \<Rightarrow> t | None \<Rightarrow> file_stem))])))))))))"

text \<open>The assignments of the relationship block.\<close>

definition reference_field :: "xml \<Rightarrow> pydict \<Rightarrow> pydict" where
  "reference_field root fd =
     set_text root ''deleteConstraint'' ''delete_constraint''
       (set_text root ''relationshipLabel'' ''relationship_label''
          (set_text root ''relationshipName'' ''relationship_name''
             (set_text root ''referenceTo'' ''reference_to'' fd)))"

text \<open>The rest of the body: picklist values, formula and default value.\<close>

definition finish_field :: "xml \<Rightarrow> pydict \<Rightarrow> pydict" where
  "finish_field root fd =
     set_text root ''defaultValue'' ''default_value''
       (set_text root ''formula'' ''formula''
          (if is_picklist_type fd \<and> value_set_names root \<noteq> []
           then dict_set fd (VStr ''picklist_values'') (VList (value_set_names root))
           else fd))"

text \<open>A document that \<^verbatim>\<open>ET.parse\<close> accepts.\<close>

definition well_formed :: "meta_file \<Rightarrow> bool" where
  "well_formed f = (case content f of WellFormed root \<Rightarrow> True | _ \<Rightarrow> False)"

text \<open>The entry a field document contributes when it is parsed on its own: its normally parsed field, or nothing.\<close>

definition parsed_field :: "string \<Rightarrow> meta_file \<Rightarrow> yval list" where
  "parsed_field parent f =
     (case fst (parse_field f parent []) of Some fd \<Rightarrow> [VDict fd] | None \<Rightarrow> [])"

text \<open>A placeholder entry: one that carries the parse-error marker.\<close>

definition is_placeholder :: "yval \<Rightarrow> bool" where
  "is_placeholder v =
     (case v of VDict fd \<Rightarrow> dict_get fd (VStr ''parse_error'') \<noteq> None | _ \<Rightarrow> False)"

text \<open>The field list of a parsed object.\<close>

definition object_fields :: "pydict \<Rightarrow> yval list" where
  "object_fields obj = (case dict_get obj (VStr ''fields'') of Some (VList fs) \<Rightarrow> fs | _ \<Rightarrow> [])"

text \<open>Two enumerations of the same files of a subdirectory (or its absence in both).\<close>

definition same_listing :: "meta_file list option \<Rightarrow> meta_file list option \<Rightarrow> bool" where
  "same_listing a b =
     (case a of
        None \<Rightarrow> b = None
      | Some xs \<Rightarrow> (case b of None \<Rightarrow> False | Some ys \<Rightarrow> mset xs = mset ys))"

text \<open>Two enumerations of the same object directory.\<close>

definition same_dir :: "object_dir \<Rightarrow> object_dir \<Rightarrow> bool" where
  "same_dir d d' \<longleftrightarrow>
     dir_name d = dir_name d' \<and> descriptor d = descriptor d'
     \<and> same_listing (field_files d) (field_files d')
     \<and> same_listing (record_type_files d) (record_type_files d')
     \<and> same_listing (validation_rule_files d) (validation_rule_files d')"

text \<open>File names are unique within a directory.\<close>

definition distinct_listing :: "meta_file list option \<Rightarrow> bool" where
  "distinct_listing a = (case a of None \<Rightarrow> True | Some xs \<Rightarrow> distinct (map file_name xs))"

text \<open>File names are unique within each subdirectory of an object directory.\<close>

definition distinct_names :: "object_dir \<Rightarrow> bool" where
  "distinct_names d \<longleftrightarrow>
     distinct_listing (field_files d) \<and> distinct_listing (record_type_files d)
     \<and> distinct_listing (validation_rule_files d)"

text \<open>The dumped schema with \<^verbatim>\<open>salesforce_schema.metadata.generated_date\<close> blanked.\<close>

definition blank_schema_date :: "yval \<Rightarrow> yval" where
  "blank_schema_date v =
     (case v of
        VDict d \<Rightarrow>
          (case dict_get d (VStr ''salesforce_schema'') of
             Some inner \<Rightarrow>
               VDict (dict_set d (VStr ''salesforce_schema'') (blank_meta ''generated_date'' inner))
           | None \<Rightarrow> v)
      | _ \<Rightarrow> v)"

text \<open>A document of the parser without its two occurrences of the generation time.\<close>

definition erase_generated :: "document \<Rightarrow> document" where
  "erase_generated doc =
     \<lparr>header = map blank_line (header doc), body = blank_schema_date (body doc)\<rparr>"

text \<open>Two parser states that agree on everything but the generation time.\<close>

definition same_content :: "parser_schema \<Rightarrow> parser_schema \<Rightarrow> bool" where
  "same_content s s' \<longleftrightarrow>
     source_path s = source_path s' \<and> total_objects s = total_objects s'
     \<and> objects s = objects s' \<and> relationships s = relationships s'"

subsection \<open>A small document tree\<close>

text \<open>
  An object directory with ten field documents, one of them malformed; the object Case
  with a text field and a lookup to Contact; and a second enumeration of the same tree.
\<close>

definition text_field_doc :: "string \<Rightarrow> file_content" where
  "text_field_doc name =
     WellFormed (Element SF_NS ''CustomField'' None
       [Element SF_NS ''fullName'' (Some name) [],
        Element SF_NS ''type'' (Some ''Text'') []])"

definition named_field_file :: "string \<Rightarrow> file_content \<Rightarrow> meta_file" where
  "named_field_file name c = \<lparr>file_name = name @ ''.field-meta.xml'', content = c\<rparr>"

definition ten_field_files :: "meta_file list" where
  "ten_field_files =
     [named_field_file ''F0'' (text_field_doc ''F0''), named_field_file ''F1'' (text_field_doc ''F1''),
      named_field_file ''F2'' (text_field_doc ''F2''), named_field_file ''F3'' Malformed,
      named_field_file ''F4'' (text_field_doc ''F4''), named_field_file ''F5'' (text_field_doc ''F5''),
      named_field_file ''F6'' (text_field_doc ''F6''), named_field_file ''F7'' (text_field_doc ''F7''),
      named_field_file ''F8'' (text_field_doc ''F8''), named_field_file ''F9'' (text_field_doc ''F9'')]"

definition ten_fields_dir :: object_dir where
  "ten_fields_dir =
     \<lparr>dir_name = ''Invoice__c'', descriptor = None, field_files = Some ten_field_files,
      record_type_files = None, validation_rule_files = None\<rparr>"

definition contact_lookup_root :: xml where
  "contact_lookup_root =
     Element SF_NS ''CustomField'' None
       [Element SF_NS ''fullName'' (Some ''ContactId'') [],
        Element SF_NS ''label'' (Some ''Contact'') [],
        Element SF_NS ''referenceTo'' (Some ''Contact'') [],
        Element SF_NS ''relationshipName'' (Some ''Cases'') [],
        Element SF_NS ''type'' (Some ''Lookup'') []]"

definition contact_lookup_file :: meta_file where
  "contact_lookup_file = named_field_file ''ContactId'' (WellFormed contact_lookup_root)"

definition subject_file :: meta_file where
  "subject_file = named_field_file ''Subject'' (text_field_doc ''Subject'')"

definition case_dir :: "meta_file list \<Rightarrow> object_dir" where
  "case_dir files =
     \<lparr>dir_name = ''Case'', descriptor = None, field_files = Some files,
      record_type_files = None, validation_rule_files = None\<rparr>"

definition example_listing :: "dir_entry list" where
  "example_listing =
     [ObjectDir ten_fields_dir, PlainFile ''README.md'',
      ObjectDir (case_dir [subject_file, contact_lookup_file])]"

definition example_listing_reordered :: "dir_entry list" where
  "example_listing_reordered =
     [ObjectDir (case_dir [contact_lookup_file, subject_file]), ObjectDir ten_fields_dir,
      PlainFile ''README.md'']"

section \<open>Facts about dictionaries\<close>

lemma nkey_idem [simp]: "nkey (nkey k) = nkey k"
  by (cases k) auto

lemma nkey_VStr_iff [simp]: "nkey k = VStr s \<longleftrightarrow> k = VStr s"
  by (cases k) auto

lemma VStr_nkey_iff [simp]: "VStr s = nkey k \<longleftrightarrow> k = VStr s"
  by (cases k) auto

lemma dict_get_dict_set:
  "dict_get (dict_set d k v) k' = (if nkey k = nkey k' then Some v else dict_get d k')"
  by (induction d k v rule: dict_set.induct) auto

lemma dict_get_dict_pop:
  "dict_get (dict_pop d k) k' = (if nkey k = nkey k' then None else dict_get d k')"
  by (induction d) (auto simp: dict_pop_def)

lemma dict_set_same: "dict_get d k = Some v \<Longrightarrow> dict_set d k v = d"
  by (induction d k v rule: dict_set.induct) (auto split: if_splits)

section \<open>Enricher: extraction of picklist values\<close>

lemma active_values_counts_active:
  "list_all has_value opts \<Longrightarrow>
   active_values opts = Inr (map option_value (filter counts_active opts))"
  by (induction opts)
     (auto simp: has_value_def option_value_def counts_active_def dict_get_default_def
           split: yval.splits option.splits)

lemma active_values_all_inactive:
  "list_all flagged_inactive opts \<Longrightarrow> active_values opts = Inr []"
  by (induction opts)
     (auto simp: flagged_inactive_def dict_get_default_def split: yval.splits option.splits)

lemma counts_active_flagged:
  "has_flag pv \<Longrightarrow> counts_active pv = flagged_active pv"
  by (auto simp: has_flag_def counts_active_def flagged_active_def has_truthy_def
           split: yval.splits option.splits)

lemma filter_counts_active_flagged:
  "list_all has_flag opts \<Longrightarrow> filter counts_active opts = filter flagged_active opts"
  by (induction opts) (auto simp: counts_active_flagged)

lemma extract_picklist_values_list:
  assumes "is_picklist_field fm"
      and "dict_get fm (VStr ''picklistValues'') = Some (VList opts)"
  shows "extract_picklist_values fm =
           (case active_values opts of
              Inl e \<Rightarrow> Inl e
            | Inr vs \<Rightarrow> Inr (if vs = [] then None else Some vs))"
  using assms
  by (auto simp: extract_picklist_values_def is_picklist_field_def dict_get_default_def
                 py_iter_def)

text \<open>
  C6 (as amended). For a picklist or multiselect-picklist field of the external source
  whose options each carry a value and an active flag, the extracted list is exactly the
  values of the options flagged active, in their original order, whenever at least one
  option is flagged active; when none is, no list is extracted (the result is
  \<^verbatim>\<open>None\<close>, not the empty list).
\<close>

theorem C6_active_only_filter:
  assumes "is_picklist_field fm"
      and "dict_get fm (VStr ''picklistValues'') = Some (VList opts)"
      and "list_all has_value opts"
      and "list_all has_flag opts"
  shows "extract_picklist_values fm =
           Inr (if flagged_active_values opts = [] then None
                else Some (flagged_active_values opts))"
  using assms
  by (simp add: extract_picklist_values_list active_values_counts_active
                filter_counts_active_flagged flagged_active_values_def)

text \<open>The example of the specification: options A (active) and B (inactive) give [A].\<close>

theorem C6_active_only_filter_witness:
  "is_picklist_field (example_picklist_field example_options)
   \<and> dict_get (example_picklist_field example_options) (VStr ''picklistValues'')
       = Some (VList example_options)
   \<and> list_all has_value example_options
   \<and> list_all has_flag example_options
   \<and> extract_picklist_values (example_picklist_field example_options) = Inr (Some [VStr ''A''])"
proof -
  have h1: "is_picklist_field (example_picklist_field example_options)"
    by (simp add: is_picklist_field_def example_picklist_field_def)
  have h2: "dict_get (example_picklist_field example_options) (VStr ''picklistValues'')
              = Some (VList example_options)"
    by (simp add: example_picklist_field_def)
  have h3: "list_all has_value example_options"
    by (simp add: example_options_def has_value_def)
  have h4: "list_all has_flag example_options"
    by (simp add: example_options_def has_flag_def)
  have v: "flagged_active_values example_options = [VStr ''A'']"
    by (simp add: flagged_active_values_def example_options_def flagged_active_def
                  has_truthy_def option_value_def dict_get_default_def)
  show ?thesis
    using C6_active_only_filter [OF h1 h2 h3 h4] h1 h2 h3 h4 by (simp add: v)
qed

text \<open>
  The claim as stated fails when no option is active: for the single inactive option B
  the values of the options flagged active are the empty list, and the extraction gives
  \<^verbatim>\<open>None\<close>.
\<close>

theorem C6_counterexample:
  "flagged_active_values [VDict [(VStr ''value'', VStr ''B''), (VStr ''active'', VBool False)]] = []
   \<and> extract_picklist_values
         (example_picklist_field
            [VDict [(VStr ''value'', VStr ''B''), (VStr ''active'', VBool False)]])
       = Inr None
   \<and> extract_picklist_values
         (example_picklist_field
            [VDict [(VStr ''value'', VStr ''B''), (VStr ''active'', VBool False)]])
       \<noteq> Inr (Some (flagged_active_values
                  [VDict [(VStr ''value'', VStr ''B''), (VStr ''active'', VBool False)]]))"
  by (simp add: flagged_active_values_def flagged_active_def has_truthy_def
                extract_picklist_values_def example_picklist_field_def py_iter_def
                dict_get_default_def)

section \<open>Enricher: the merge\<close>

lemma norm_keys_Nil [simp]: "norm_keys [] = []"
  by (simp add: norm_keys_def)

lemma norm_keys_Cons [simp]: "norm_keys ((k, v) # d) = nkey k # norm_keys d"
  by (simp add: norm_keys_def)

lemma in_norm_keys: "(k, v) \<in> set d \<Longrightarrow> nkey k \<in> set (norm_keys d)"
  by (force simp: norm_keys_def)

lemma dict_get_nkey_cong: "nkey k = nkey k' \<Longrightarrow> dict_get d k = dict_get d k'"
  by (induction d) auto


lemma dict_get_None_iff: "dict_get d k = None \<longleftrightarrow> nkey k \<notin> set (norm_keys d)"
  by (induction d k rule: dict_get.induct) auto

lemma fst_fill_missing_Cons:
  "fst (fill_missing f ((key, val) # ed)) =
     (if has_truthy f key then fst (fill_missing f ed)
      else fst (fill_missing (dict_set f key val) ed))"
  by (simp add: split_def Let_def)

lemma norm_keys_dict_set:
  "norm_keys (dict_set d k v) =
     (if nkey k \<in> set (norm_keys d) then norm_keys d else norm_keys d @ [nkey k])"
  by (induction d k v rule: dict_set.induct) auto

lemma has_truthy_dict_set:
  "has_truthy (dict_set d k v) k' = (if nkey k = nkey k' then truthy v else has_truthy d k')"
  by (simp add: has_truthy_def dict_get_dict_set)

lemma fill_missing_other:
  "nkey k \<notin> set (norm_keys ed) \<Longrightarrow> dict_get (fst (fill_missing f ed)) k = dict_get f k"
  by (induction f ed rule: fill_missing.induct)
     (auto simp: dict_get_dict_set split_def Let_def)

lemma fill_missing_truthy_kept:
  "has_truthy f k \<Longrightarrow> dict_get (fst (fill_missing f ed)) k = dict_get f k"
proof (induction f ed rule: fill_missing.induct)
  case (1 field)
  then show ?case by simp
next
  case (2 field key val enriched_data)
  show ?case
  proof (cases "has_truthy field key")
    case True
    with 2 show ?thesis by simp
  next
    case False
    with 2(3) have ne: "nkey key \<noteq> nkey k"
      by (auto simp: has_truthy_def dict_get_nkey_cong [of key k])
    with False 2 show ?thesis
      by (auto simp: has_truthy_dict_set dict_get_dict_set split_def Let_def)
  qed
qed

lemma fill_missing_entry:
  "distinct (norm_keys ed) \<Longrightarrow> (k, v) \<in> set ed \<Longrightarrow>
   dict_get (fst (fill_missing f ed)) k = (if has_truthy f k then dict_get f k else Some v)"
proof (induction f ed rule: fill_missing.induct)
  case (1 field)
  then show ?case by simp
next
  case (2 field key val enriched_data)
  show ?case
  proof (cases "(k, v) = (key, val)")
    case True
    with 2(3) have "nkey k \<notin> set (norm_keys enriched_data)" by auto
    with True show ?thesis
      by (auto simp: fill_missing_other dict_get_dict_set fill_missing_truthy_kept split_def Let_def)
  next
    case False
    with 2(4) have mem: "(k, v) \<in> set enriched_data" by auto
    with 2(3) have ne: "nkey key \<noteq> nkey k" by (auto dest: in_norm_keys)
    from 2(3) have d: "distinct (norm_keys enriched_data)" by simp
    show ?thesis
    proof (cases "has_truthy field key")
      case True
      with 2(2)[OF _ d mem] show ?thesis by simp
    next
      case F: False
      with 2(1)[OF F d mem] ne show ?thesis
        by (auto simp: has_truthy_dict_set dict_get_dict_set split_def Let_def)
    qed
  qed
qed

lemma fill_missing_fixpoint:
  "list_all (\<lambda>(k, v). has_truthy g k \<or> dict_get g k = Some v) ed \<Longrightarrow> fst (fill_missing g ed) = g"
  by (induction g ed rule: fill_missing.induct) (auto simp: dict_set_same split_def Let_def)

lemma ed_ok_Nil: "ed_ok []"
  by (simp add: ed_ok_def)

lemma ed_ok_dict_set: "ed_ok d \<Longrightarrow> k \<in> set fill_missing_keys \<Longrightarrow> ed_ok (dict_set d (VStr k) v)"
  by (auto simp: ed_ok_def norm_keys_dict_set)

lemma ed_ok_copy: "ed_ok d \<Longrightarrow> k \<in> set fill_missing_keys \<Longrightarrow> ed_ok (copy_if_truthy fm src k d)"
  by (auto simp: copy_if_truthy_def ed_ok_dict_set split: option.splits)

lemma ed_ok_flag: "ed_ok d \<Longrightarrow> k \<in> set fill_missing_keys \<Longrightarrow> ed_ok (flag_if_truthy fm src k d)"
  by (auto simp: flag_if_truthy_def ed_ok_dict_set)

lemma ed_ok_reference: "ed_ok d \<Longrightarrow> reference_step fm d = Inr d' \<Longrightarrow> ed_ok d'"
  by (auto simp: reference_step_def Let_def fill_missing_keys_def intro!: ed_ok_dict_set
           split: if_splits sum.splits)

lemma extract_non_ok:
  assumes "extract_non_picklist_formula_metadata fm = Inr ed"
  shows "ed_ok ed"
proof -
  have mem: "''default_value'' \<in> set fill_missing_keys" "''required'' \<in> set fill_missing_keys"
    "''unique'' \<in> set fill_missing_keys" "''external_id'' \<in> set fill_missing_keys"
    "''controlling_field'' \<in> set fill_missing_keys"
    "''is_dependent_picklist'' \<in> set fill_missing_keys" "''length'' \<in> set fill_missing_keys"
    "''precision'' \<in> set fill_missing_keys" "''scale'' \<in> set fill_missing_keys"
    "''help_text'' \<in> set fill_missing_keys" "''label'' \<in> set fill_missing_keys"
    by (simp_all add: fill_missing_keys_def)
  define e4 where "e4 = flag_if_truthy fm ''externalId'' ''external_id''
     (flag_if_truthy fm ''unique'' ''unique''
       (if dict_get fm (VStr ''nillable'') = Some (VBool False)
        then dict_set (copy_if_truthy fm ''defaultValue'' ''default_value'' []) (VStr ''required'') (VBool True)
        else copy_if_truthy fm ''defaultValue'' ''default_value'' []))"
  have ok4: "ed_ok e4"
    unfolding e4_def by (intro ed_ok_flag ed_ok_copy mem) (simp add: ed_ok_dict_set ed_ok_copy ed_ok_Nil mem)
  from assms obtain e5 where r: "reference_step fm e4 = Inr e5"
    and ed: "ed = copy_if_truthy fm ''label'' ''label''
      (copy_if_truthy fm ''inlineHelpText'' ''help_text''
        (copy_if_truthy fm ''scale'' ''scale''
          (copy_if_truthy fm ''precision'' ''precision''
            (copy_if_truthy fm ''length'' ''length''
              (flag_if_truthy fm ''dependentPicklist'' ''is_dependent_picklist''
                (copy_if_truthy fm ''controllerName'' ''controlling_field'' e5))))))"
    by (auto simp: extract_non_picklist_formula_metadata_def Let_def e4_def split: sum.splits)
  from ok4 r have "ed_ok e5" by (rule ed_ok_reference)
  then show ?thesis unfolding ed by (intro ed_ok_flag ed_ok_copy mem)
qed

lemma picklist_step_shape:
  assumes "picklist_step ns n orgf (f, st) = Inr (f1, st1)"
  shows "enriched_fields st1 = enriched_fields st"
    and "formulas_data st1 = formulas_data st"
    and "nkey k \<noteq> VStr ''picklist_values'' \<Longrightarrow> dict_get f1 k = dict_get f k"
  using assms
  by (auto simp: picklist_step_def dict_get_dict_set split: if_splits sum.splits option.splits)

lemma picklist_step_again:
  assumes "picklist_step ns n orgf (f, st) = Inr (f1, st1)"
      and "picklists_data s = picklists_data st"
      and "formulas_data s = formulas_data st"
      and "ns \<or> dict_get g (VStr ''picklist_values'') = dict_get f1 (VStr ''picklist_values'')"
  shows "\<exists>s1. picklist_step ns n orgf (g, s) = Inr (g, s1)
           \<and> picklists_data s1 = picklists_data st1
           \<and> formulas_data s1 = formulas_data st1
           \<and> enriched_fields s1 = enriched_fields s"
  using assms
  by (auto simp: picklist_step_def dict_get_dict_set dict_set_same
           split: if_splits sum.splits option.splits)

lemma formula_step_shape:
  assumes "formula_step ns n orgf (f, st) = (f1, st1)"
  shows "enriched_fields st1 = enriched_fields st"
    and "picklists_data st1 = picklists_data st"
    and "nkey k \<noteq> VStr ''formula'' \<Longrightarrow> dict_get f1 k = dict_get f k"
  using assms
  by (auto simp: formula_step_def dict_get_dict_set split: if_splits option.splits)

lemma formula_step_again:
  assumes "formula_step ns n orgf (f, st) = (f1, st1)"
      and "picklists_data s = picklists_data st"
      and "formulas_data s = formulas_data st"
      and "ns \<or> dict_get g (VStr ''formula'') = dict_get f1 (VStr ''formula'')"
  shows "\<exists>s1. formula_step ns n orgf (g, s) = (g, s1)
           \<and> picklists_data s1 = picklists_data st1
           \<and> formulas_data s1 = formulas_data st1
           \<and> enriched_fields s1 = enriched_fields s"
  using assms
  by (auto simp: formula_step_def dict_get_dict_set dict_set_same
           split: if_splits option.splits)

lemma ed_ok_not_key:
  "ed_ok ed \<Longrightarrow> k \<notin> set fill_missing_keys \<Longrightarrow> nkey (VStr k) \<notin> set (norm_keys ed)"
  by (auto simp: ed_ok_def)

lemma fill_missing_refill:
  assumes "ed_ok ed"
  shows "fst (fill_missing (fst (fill_missing f ed)) ed) = fst (fill_missing f ed)"
proof (rule fill_missing_fixpoint)
  from assms have d: "distinct (norm_keys ed)" by (simp add: ed_ok_def)
  show "list_all (\<lambda>(k, v). has_truthy (fst (fill_missing f ed)) k
                          \<or> dict_get (fst (fill_missing f ed)) k = Some v) ed"
    unfolding list_all_iff
  proof (clarify)
    fix k v assume kv: "(k, v) \<in> set ed" and nt: "dict_get (fst (fill_missing f ed)) k \<noteq> Some v"
    from fill_missing_entry [OF d kv, of f] nt
    have "has_truthy f k" and "dict_get (fst (fill_missing f ed)) k = dict_get f k"
      by (auto split: if_splits)
    then show "has_truthy (fst (fill_missing f ed)) k" by (simp add: has_truthy_def)
  qed
qed

lemma enrich_step_elim:
  assumes "enrich_step ns org fld st = Inr st'"
  obtains (absent) field where "fld = VDict field"
      "hashable (dict_get_default field (VStr ''api_name'') VNone)"
      "dict_get org (dict_get_default field (VStr ''api_name'') VNone) = None"
      "st' = st\<lparr>enriched_fields := enriched_fields st @ [VDict field]\<rparr>"
  | (present) field orgf f1 st1 f2 st2 ed where "fld = VDict field"
      "hashable (dict_get_default field (VStr ''api_name'') VNone)"
      "dict_get org (dict_get_default field (VStr ''api_name'') VNone) = Some (VDict orgf)"
      "picklist_step ns (dict_get_default field (VStr ''api_name'') VNone) orgf (field, st) = Inr (f1, st1)"
      "formula_step ns (dict_get_default field (VStr ''api_name'') VNone) orgf (f1, st1) = (f2, st2)"
      "extract_non_picklist_formula_metadata orgf = Inr ed"
      "st' = st2\<lparr>enriched_fields := enriched_fields st2 @ [VDict (fst (fill_missing f2 ed))],
                 enriched_count := enriched_count st2 + snd (fill_missing f2 ed)\<rparr>"
proof -
  from assms obtain field where fld: "fld = VDict field"
    by (cases fld) (auto simp: enrich_step_def)
  let ?n = "dict_get_default field (VStr ''api_name'') VNone"
  from assms fld have h: "hashable ?n"
    by (auto simp: enrich_step_def Let_def split: if_splits)
  show thesis
  proof (cases "dict_get org ?n")
    case None
    with assms fld h have "st' = st\<lparr>enriched_fields := enriched_fields st @ [VDict field]\<rparr>"
      by (auto simp: enrich_step_def Let_def)
    with fld h None show thesis by (rule absent)
  next
    case (Some v)
    with assms fld h obtain orgf where v: "v = VDict orgf"
      by (cases v) (auto simp: enrich_step_def Let_def)
    from assms fld h Some v obtain fs1 where
      p: "picklist_step ns ?n orgf (field, st) = Inr fs1"
      by (auto simp: enrich_step_def Let_def split: sum.splits)
    obtain f1 st1 where fs1: "fs1 = (f1, st1)" by (cases fs1)
    obtain f2 st2 where fo: "formula_step ns ?n orgf (f1, st1) = (f2, st2)"
      by (cases "formula_step ns ?n orgf (f1, st1)")
    from assms fld h Some v p fs1 fo obtain ed where
      ed: "extract_non_picklist_formula_metadata orgf = Inr ed"
      by (auto simp: enrich_step_def Let_def split: sum.splits)
    from assms fld h Some v p fs1 fo ed
    have "st' = st2\<lparr>enriched_fields := enriched_fields st2 @ [VDict (fst (fill_missing f2 ed))],
                 enriched_count := enriched_count st2 + snd (fill_missing f2 ed)\<rparr>"
      by (auto simp: enrich_step_def Let_def split_def)
    with fld h Some v p fs1 fo ed show thesis by (intro present) auto
  qed
qed

lemma enrich_step_present:
  assumes "hashable (dict_get_default field (VStr ''api_name'') VNone)"
      "dict_get org (dict_get_default field (VStr ''api_name'') VNone) = Some (VDict orgf)"
      "picklist_step ns (dict_get_default field (VStr ''api_name'') VNone) orgf (field, st) = Inr (f1, st1)"
      "formula_step ns (dict_get_default field (VStr ''api_name'') VNone) orgf (f1, st1) = (f2, st2)"
      "extract_non_picklist_formula_metadata orgf = Inr ed"
  shows "enrich_step ns org (VDict field) st =
           Inr (st2\<lparr>enriched_fields := enriched_fields st2 @ [VDict (fst (fill_missing f2 ed))],
                 enriched_count := enriched_count st2 + snd (fill_missing f2 ed)\<rparr>)"
  using assms by (simp add: enrich_step_def Let_def split_def)

lemma enrich_step_again:
  assumes "enrich_step ns org fld st = Inr st'"
  shows "\<exists>fld'. enriched_fields st' = enriched_fields st @ [fld']
           \<and> (\<forall>s. picklists_data s = picklists_data st \<longrightarrow> formulas_data s = formulas_data st \<longrightarrow>
                 (\<exists>s'. enrich_step ns org fld' s = Inr s'
                      \<and> picklists_data s' = picklists_data st'
                      \<and> formulas_data s' = formulas_data st'
                      \<and> enriched_fields s' = enriched_fields s @ [fld']))"
  using assms
proof (cases rule: enrich_step_elim)
  case (absent field)
  then show ?thesis by (auto simp: enrich_step_def Let_def)
next
  case (present field orgf f1 st1 f2 st2 ed)
  let ?n = "dict_get_default field (VStr ''api_name'') VNone"
  let ?f3 = "fst (fill_missing f2 ed)"
  have ok: "ed_ok ed" using present(6) by (rule extract_non_ok)
  have other: "dict_get ?f3 (VStr k) = dict_get f2 (VStr k)" if "k \<notin> set fill_missing_keys" for k
    using fill_missing_other [OF ed_ok_not_key [OF ok that], of f2] by simp
  have pv3: "dict_get ?f3 (VStr ''picklist_values'') = dict_get f1 (VStr ''picklist_values'')"
    using other [of "''picklist_values''"] formula_step_shape(3) [OF present(5), of "VStr ''picklist_values''"]
    by (simp add: fill_missing_keys_def)
  have fk3: "dict_get ?f3 (VStr ''formula'') = dict_get f2 (VStr ''formula'')"
    using other [of "''formula''"] by (simp add: fill_missing_keys_def)
  have "dict_get ?f3 (VStr ''api_name'') = dict_get field (VStr ''api_name'')"
    using other [of "''api_name''"] formula_step_shape(3) [OF present(5), of "VStr ''api_name''"]
      picklist_step_shape(3) [OF present(4), of "VStr ''api_name''"]
    by (simp add: fill_missing_keys_def)
  then have n3: "dict_get_default ?f3 (VStr ''api_name'') VNone = ?n"
    by (simp add: dict_get_default_def)
  have ef: "enriched_fields st2 = enriched_fields st"
    using formula_step_shape(1) [OF present(5)] picklist_step_shape(1) [OF present(4)] by simp
  have again: "\<exists>s'. enrich_step ns org (VDict ?f3) s = Inr s'
                      \<and> picklists_data s' = picklists_data st'
                      \<and> formulas_data s' = formulas_data st'
                      \<and> enriched_fields s' = enriched_fields s @ [VDict ?f3]"
    if eq: "picklists_data s = picklists_data st" "formulas_data s = formulas_data st" for s
  proof -
    from picklist_step_again [OF present(4) eq, of ?f3] pv3
    obtain s1 where s1: "picklist_step ns ?n orgf (?f3, s) = Inr (?f3, s1)"
      "picklists_data s1 = picklists_data st1" "formulas_data s1 = formulas_data st1"
      "enriched_fields s1 = enriched_fields s" by auto
    from formula_step_again [OF present(5) s1(2,3), of ?f3] fk3
    obtain s2 where s2: "formula_step ns ?n orgf (?f3, s1) = (?f3, s2)"
      "picklists_data s2 = picklists_data st2" "formulas_data s2 = formulas_data st2"
      "enriched_fields s2 = enriched_fields s1" by auto
    have "enrich_step ns org (VDict ?f3) s =
            Inr (s2\<lparr>enriched_fields := enriched_fields s2 @ [VDict (fst (fill_missing ?f3 ed))],
                 enriched_count := enriched_count s2 + snd (fill_missing ?f3 ed)\<rparr>)"
      by (rule enrich_step_present [where orgf = orgf and ?f1.0 = ?f3 and ?st1.0 = s1])
         (simp_all add: n3 present s1 s2)
    then show ?thesis
      using s1 s2 present(7) by (simp add: fill_missing_refill [OF ok])
  qed
  show ?thesis
    by (rule exI [of _ "VDict ?f3"]) (use again present(7) ef in auto)
qed













lemma dict_get_distinct:
  "distinct (norm_keys d) \<Longrightarrow> (k, v) \<in> set d \<Longrightarrow> dict_get d k = Some v"
proof (induction d)
  case Nil
  then show ?case by simp
next
  case (Cons p d)
  obtain a b where p: "p = (a, b)" by (cases p)
  show ?case
  proof (cases "(k, v) = (a, b)")
    case True
    with p show ?thesis by simp
  next
    case False
    with Cons.prems p have mem: "(k, v) \<in> set d" by auto
    from Cons.prems p in_norm_keys [OF mem] have "nkey a \<noteq> nkey k" by auto
    with Cons p mem show ?thesis by simp
  qed
qed

lemma in_norm_keysE:
  assumes "nkey k \<in> set (norm_keys d)"
  obtains k' v where "(k', v) \<in> set d" "nkey k' = nkey k"
  using assms by (auto simp: norm_keys_def)

lemma fill_missing_changed:
  assumes "distinct (norm_keys ed)"
      and "dict_get (fst (fill_missing f ed)) k \<noteq> dict_get f k"
  shows "\<not> has_truthy f k"
    and "dict_get (fst (fill_missing f ed)) k = dict_get ed k"
    and "dict_get ed k \<noteq> None"
proof -
  show nt: "\<not> has_truthy f k" using assms(2) fill_missing_truthy_kept by blast
  from assms(2) have "nkey k \<in> set (norm_keys ed)" using fill_missing_other by blast
  then obtain k' v where kv: "(k', v) \<in> set ed" "nkey k' = nkey k" by (rule in_norm_keysE)
  from nt kv(2) have nt': "\<not> has_truthy f k'"
    by (simp add: has_truthy_def dict_get_nkey_cong [of k' k])
  from fill_missing_entry [OF assms(1) kv(1), of f] nt'
  have "dict_get (fst (fill_missing f ed)) k' = Some v" by simp
  moreover from dict_get_distinct [OF assms(1) kv(1)] have "dict_get ed k' = Some v" .
  ultimately show "dict_get (fst (fill_missing f ed)) k = dict_get ed k" "dict_get ed k \<noteq> None"
    by (simp_all add: dict_get_nkey_cong [OF kv(2)])
qed

lemma enrich_fields_prefix:
  "enrich_fields ns org flds st0 = Inr st \<Longrightarrow>
   \<exists>outs. enriched_fields st = enriched_fields st0 @ outs \<and> length outs = length flds"
proof (induction flds arbitrary: st0)
  case Nil
  then show ?case by simp
next
  case (Cons fld flds)
  from Cons.prems obtain st1 where
    step: "enrich_step ns org fld st0 = Inr st1" and rest: "enrich_fields ns org flds st1 = Inr st"
    by (auto split: sum.splits)
  from enrich_step_again [OF step] obtain fld' where
    "enriched_fields st1 = enriched_fields st0 @ [fld']" by blast
  with Cons.IH [OF rest] show ?case by auto
qed

lemma enrich_fields_nth:
  "enrich_fields ns org flds st0 = Inr st \<Longrightarrow> i < length flds \<Longrightarrow>
   \<exists>s s' fld'. enrich_step ns org (flds ! i) s = Inr s'
      \<and> enriched_fields s' = enriched_fields s @ [fld']
      \<and> enriched_fields st ! (length (enriched_fields st0) + i) = fld'"
proof (induction flds arbitrary: st0 i)
  case Nil
  then show ?case by simp
next
  case (Cons fld flds)
  from Cons.prems obtain st1 where
    step: "enrich_step ns org fld st0 = Inr st1" and rest: "enrich_fields ns org flds st1 = Inr st"
    by (auto split: sum.splits)
  from enrich_step_again [OF step] obtain fld' where
    f1: "enriched_fields st1 = enriched_fields st0 @ [fld']" by blast
  show ?case
  proof (cases i)
    case 0
    from enrich_fields_prefix [OF rest] f1 obtain outs where
      "enriched_fields st = enriched_fields st0 @ fld' # outs" by auto
    then have "enriched_fields st ! (length (enriched_fields st0) + i) = fld'"
      using 0 by (simp add: nth_append)
    with step f1 0 show ?thesis by auto
  next
    case (Suc j)
    with Cons.prems have "j < length flds" by simp
    from Cons.IH [OF rest this] obtain s s' fld2 where
      "enrich_step ns org (flds ! j) s = Inr s'" "enriched_fields s' = enriched_fields s @ [fld2]"
      "enriched_fields st ! (length (enriched_fields st1) + j) = fld2" by blast
    with f1 Suc show ?thesis by (auto simp: add.commute)
  qed
qed

lemma enrich_step_fill_missing:
  assumes "enrich_step ns org (VDict field) st = Inr st'"
      and "key \<in> set fill_missing_keys"
  shows "\<exists>field'. enriched_fields st' = enriched_fields st @ [VDict field']
           \<and> (has_truthy field (VStr key) \<longrightarrow> dict_get field' (VStr key) = dict_get field (VStr key))
           \<and> (dict_get field' (VStr key) \<noteq> dict_get field (VStr key) \<longrightarrow>
                \<not> has_truthy field (VStr key)
                \<and> (\<exists>orgf ed. dict_get org (dict_get_default field (VStr ''api_name'') VNone) = Some (VDict orgf)
                      \<and> extract_non_picklist_formula_metadata orgf = Inr ed
                      \<and> dict_get ed (VStr key) \<noteq> None
                      \<and> dict_get field' (VStr key) = dict_get ed (VStr key)))"
  using assms(1)
proof (cases rule: enrich_step_elim)
  case (absent field0)
  then show ?thesis by auto
next
  case (present field0 orgf f1 st1 f2 st2 ed)
  then have f0: "field0 = field" by simp
  let ?f3 = "fst (fill_missing f2 ed)"
  have ok: "ed_ok ed" using present(6) by (rule extract_non_ok)
  then have d: "distinct (norm_keys ed)" by (simp add: ed_ok_def)
  from assms(2) have ne: "key \<noteq> ''picklist_values''" "key \<noteq> ''formula''"
    by (auto simp: fill_missing_keys_def)
  have same: "dict_get f2 (VStr key) = dict_get field (VStr key)"
    using formula_step_shape(3) [OF present(5), of "VStr key"]
      picklist_step_shape(3) [OF present(4), of "VStr key"] ne f0 by simp
  then have ht: "has_truthy f2 (VStr key) = has_truthy field (VStr key)"
    by (simp add: has_truthy_def)
  have ef: "enriched_fields st' = enriched_fields st @ [VDict ?f3]"
    using present(7) formula_step_shape(1) [OF present(5)] picklist_step_shape(1) [OF present(4)]
    by simp
  have kept: "has_truthy field (VStr key) \<longrightarrow> dict_get ?f3 (VStr key) = dict_get field (VStr key)"
    using fill_missing_truthy_kept [of f2 "VStr key" ed] ht same by simp
  have changed: "dict_get ?f3 (VStr key) \<noteq> dict_get field (VStr key) \<longrightarrow>
                \<not> has_truthy field (VStr key)
                \<and> (\<exists>orgf ed. dict_get org (dict_get_default field (VStr ''api_name'') VNone) = Some (VDict orgf)
                      \<and> extract_non_picklist_formula_metadata orgf = Inr ed
                      \<and> dict_get ed (VStr key) \<noteq> None
                      \<and> dict_get ?f3 (VStr key) = dict_get ed (VStr key))"
    using fill_missing_changed [OF d, of f2 "VStr key"] same ht present(3,6) f0 by auto
  from ef kept changed show ?thesis by blast
qed

text \<open>
  C7. For every field the merge loop processes and every attribute of the fill-missing
  category, an existing truthy value of the field is left unchanged; the value changes
  only when the attribute was absent or falsy, and then it is the value extracted from
  the external metadata of the field of that name.
\<close>

theorem C7_fill_missing:
  assumes "enrich_fields ns org flds st0 = Inr st"
      and "i < length flds"
      and "flds ! i = VDict field"
      and "key \<in> set fill_missing_keys"
  shows "\<exists>field'. enriched_fields st ! (length (enriched_fields st0) + i) = VDict field'
           \<and> (has_truthy field (VStr key) \<longrightarrow> dict_get field' (VStr key) = dict_get field (VStr key))
           \<and> (dict_get field' (VStr key) \<noteq> dict_get field (VStr key) \<longrightarrow>
                \<not> has_truthy field (VStr key)
                \<and> (\<exists>orgf ed. dict_get org (dict_get_default field (VStr ''api_name'') VNone) = Some (VDict orgf)
                      \<and> extract_non_picklist_formula_metadata orgf = Inr ed
                      \<and> dict_get ed (VStr key) \<noteq> None
                      \<and> dict_get field' (VStr key) = dict_get ed (VStr key)))"
proof -
  from enrich_fields_nth [OF assms(1,2)] assms(3) obtain s s' fld' where
    step: "enrich_step ns org (VDict field) s = Inr s'" and
    app: "enriched_fields s' = enriched_fields s @ [fld']" and
    nth: "enriched_fields st ! (length (enriched_fields st0) + i) = fld'" by auto
  from enrich_step_fill_missing [OF step assms(4)] app nth show ?thesis by auto
qed

lemma enrich_step_picklist_entry:
  assumes "enrich_step ns org fld st = Inr st'"
      and "dict_get (picklists_data st') n \<noteq> dict_get (picklists_data st) n"
  shows "\<exists>orgf vs. dict_get org n = Some (VDict orgf)
           \<and> extract_picklist_values orgf = Inr (Some vs) \<and> vs \<noteq> []"
  using assms(1)
proof (cases rule: enrich_step_elim)
  case (absent field)
  with assms(2) show ?thesis by simp
next
  case (present field orgf f1 st1 f2 st2 ed)
  let ?n = "dict_get_default field (VStr ''api_name'') VNone"
  from present(7) formula_step_shape(2) [OF present(5)]
  have "picklists_data st' = picklists_data st1" by simp
  with assms(2) have ch: "dict_get (picklists_data st1) n \<noteq> dict_get (picklists_data st) n" by simp
  with present(4) obtain vs where
    vs: "extract_picklist_values orgf = Inr (Some vs)" "vs \<noteq> []"
        "picklists_data st1 = dict_set (picklists_data st) ?n (VList vs)"
    by (auto simp: picklist_step_def split: if_splits sum.splits option.splits)
  from ch vs(3) have "nkey ?n = nkey n" by (auto simp: dict_get_dict_set split: if_splits)
  with present(3) have "dict_get org n = Some (VDict orgf)"
    by (simp add: dict_get_nkey_cong [of ?n n])
  with vs show ?thesis by blast
qed

lemma enrich_fields_picklist_entry:
  "enrich_fields ns org flds st0 = Inr st \<Longrightarrow>
   dict_get (picklists_data st) n \<noteq> dict_get (picklists_data st0) n \<Longrightarrow>
   \<exists>orgf vs. dict_get org n = Some (VDict orgf)
      \<and> extract_picklist_values orgf = Inr (Some vs) \<and> vs \<noteq> []"
proof (induction flds arbitrary: st0)
  case Nil
  then show ?case by simp
next
  case (Cons fld flds)
  from Cons.prems obtain st1 where
    step: "enrich_step ns org fld st0 = Inr st1" and rest: "enrich_fields ns org flds st1 = Inr st"
    by (auto split: sum.splits)
  show ?case
  proof (cases "dict_get (picklists_data st1) n = dict_get (picklists_data st0) n")
    case True
    with Cons.prems(2) Cons.IH [OF rest] show ?thesis by simp
  next
    case False
    with enrich_step_picklist_entry [OF step] show ?thesis by blast
  qed
qed

lemmas enrich_eval =
  enrich_object_schema_def example_files_def example_describe_def example_schema_def
  example_schema_fields_def example_picklist_field_def example_options_def
  example_org_fields_def attr_get_def py_iter_def dict_get_default_def merge_schema_def
  init_enrich_state_def enrich_step_def picklist_step_def formula_step_def
  extract_picklist_values_def extract_non_picklist_formula_metadata_def copy_if_truthy_def
  flag_if_truthy_def reference_step_def has_truthy_def write_enriched_def stamp_schema_def
  Let_def


text \<open>On the example object the field Name keeps its label, although the external
  source has another one.\<close>

theorem C7_fill_missing_witness:
  "\<exists>st field'.
     enrich_fields True example_org_fields example_schema_fields init_enrich_state = Inr st
     \<and> (1::nat) < length example_schema_fields
     \<and> ''label'' \<in> set fill_missing_keys
     \<and> enriched_fields st ! 1 = VDict field'
     \<and> dict_get field' (VStr ''label'') = Some (VStr ''Name'')"
proof -
  let ?f = "[(VStr ''api_name'', VStr ''Name''), (VStr ''type'', VStr ''Text''),
             (VStr ''label'', VStr ''Name'')]"
  have "\<exists>st. enrich_fields True example_org_fields example_schema_fields init_enrich_state
          = Inr st"
    by (simp add: enrich_eval)
  then obtain st where
    r: "enrich_fields True example_org_fields example_schema_fields init_enrich_state = Inr st"
    by blast
  have i: "(1::nat) < length example_schema_fields" by (simp add: example_schema_fields_def)
  have f: "example_schema_fields ! 1 = VDict ?f" by (simp add: example_schema_fields_def)
  have k: "''label'' \<in> set fill_missing_keys" by (simp add: fill_missing_keys_def)
  have t: "has_truthy ?f (VStr ''label'')" by (simp add: has_truthy_def)
  from C7_fill_missing [OF r i f k] t obtain field' where
    "enriched_fields st ! 1 = VDict field'"
    "dict_get field' (VStr ''label'') = Some (VStr ''Name'')"
    by (auto simp: init_enrich_state_def)
  with r i k show ?thesis by blast
qed

text \<open>
  C10. (1) A picklist option that lacks the active flag is treated as active: its value
  is among the extracted values. (2) When every option of a field is flagged inactive,
  \<^verbatim>\<open>extract_picklist_values\<close> returns \<^verbatim>\<open>None\<close>, not the empty list, and the merge loop
  records no entry for that field in \<^verbatim>\<open>picklists_data\<close>.
\<close>

theorem C10_default_active_and_none:
  "(is_picklist_field fm
      \<and> dict_get fm (VStr ''picklistValues'') = Some (VList opts)
      \<and> list_all has_value opts \<and> VDict d \<in> set opts
      \<and> dict_get d (VStr ''active'') = None \<and> dict_get d (VStr ''value'') = Some v
    \<longrightarrow> (\<exists>vs. extract_picklist_values fm = Inr (Some vs) \<and> v \<in> set vs))
   \<and> (is_picklist_field fm'
        \<and> dict_get fm' (VStr ''picklistValues'') = Some (VList opts')
        \<and> list_all flagged_inactive opts'
      \<longrightarrow> extract_picklist_values fm' = Inr None
          \<and> (\<forall>ns org flds st n.
                enrich_fields ns org flds init_enrich_state = Inr st
                \<and> dict_get org n = Some (VDict fm')
              \<longrightarrow> dict_get (picklists_data st) n = None))"
proof (intro conjI impI)
  assume a: "is_picklist_field fm
      \<and> dict_get fm (VStr ''picklistValues'') = Some (VList opts)
      \<and> list_all has_value opts \<and> VDict d \<in> set opts
      \<and> dict_get d (VStr ''active'') = None \<and> dict_get d (VStr ''value'') = Some v"
  let ?vs = "map option_value (filter counts_active opts)"
  from a have "counts_active (VDict d)" "option_value (VDict d) = v"
    by (simp_all add: counts_active_def option_value_def dict_get_default_def)
  with a have v: "v \<in> set ?vs" by force
  from a have "extract_picklist_values fm = Inr (if ?vs = [] then None else Some ?vs)"
    by (simp add: extract_picklist_values_list active_values_counts_active)
  moreover from v have "?vs \<noteq> []" by (cases ?vs) simp_all
  ultimately have "extract_picklist_values fm = Inr (Some ?vs)" by simp
  with v show "\<exists>vs. extract_picklist_values fm = Inr (Some vs) \<and> v \<in> set vs" by blast
next
  assume b: "is_picklist_field fm'
        \<and> dict_get fm' (VStr ''picklistValues'') = Some (VList opts')
        \<and> list_all flagged_inactive opts'"
  then show n: "extract_picklist_values fm' = Inr None"
    by (simp add: extract_picklist_values_list active_values_all_inactive)
  show "\<forall>ns org flds st n.
          enrich_fields ns org flds init_enrich_state = Inr st
          \<and> dict_get org n = Some (VDict fm')
        \<longrightarrow> dict_get (picklists_data st) n = None"
  proof (intro allI impI)
    fix ns org flds st n
    assume r: "enrich_fields ns org flds init_enrich_state = Inr st
          \<and> dict_get org n = Some (VDict fm')"
    show "dict_get (picklists_data st) n = None"
    proof (rule ccontr)
      assume "dict_get (picklists_data st) n \<noteq> None"
      then have "dict_get (picklists_data st) n \<noteq> dict_get (picklists_data init_enrich_state) n"
        by (simp add: init_enrich_state_def)
      with r enrich_fields_picklist_entry [of ns org flds init_enrich_state st n] n
      show False by auto
    qed
  qed
qed

text \<open>An option without a flag is extracted; the field whose only option is inactive
  gets no list and no entry.\<close>

theorem C10_default_active_and_none_witness:
  "(\<exists>vs. extract_picklist_values
            (example_picklist_field
               [VDict [(VStr ''value'', VStr ''X'')],
                VDict [(VStr ''value'', VStr ''Y''), (VStr ''active'', VBool False)]])
          = Inr (Some vs) \<and> VStr ''X'' \<in> set vs)
   \<and> extract_picklist_values
         (example_picklist_field
            [VDict [(VStr ''value'', VStr ''B''), (VStr ''active'', VBool False)]])
       = Inr None
   \<and> (\<exists>st. enrich_fields True
              [(VStr ''Status'', VDict (example_picklist_field
                  [VDict [(VStr ''value'', VStr ''B''), (VStr ''active'', VBool False)]]))]
              [VDict [(VStr ''api_name'', VStr ''Status'')]] init_enrich_state = Inr st
            \<and> dict_get (picklists_data st) (VStr ''Status'') = None)"
proof -
  let ?optsA = "[VDict [(VStr ''value'', VStr ''X'')],
                VDict [(VStr ''value'', VStr ''Y''), (VStr ''active'', VBool False)]]"
  let ?optsB = "[VDict [(VStr ''value'', VStr ''B''), (VStr ''active'', VBool False)]]"
  let ?org = "[(VStr ''Status'', VDict (example_picklist_field ?optsB))]"
  let ?flds = "[VDict [(VStr ''api_name'', VStr ''Status'')]]"
  have hA: "is_picklist_field (example_picklist_field ?optsA)
      \<and> dict_get (example_picklist_field ?optsA) (VStr ''picklistValues'') = Some (VList ?optsA)
      \<and> list_all has_value ?optsA \<and> VDict [(VStr ''value'', VStr ''X'')] \<in> set ?optsA
      \<and> dict_get [(VStr ''value'', VStr ''X'')] (VStr ''active'') = None
      \<and> dict_get [(VStr ''value'', VStr ''X'')] (VStr ''value'') = Some (VStr ''X'')"
    by (simp add: is_picklist_field_def example_picklist_field_def has_value_def)
  have hB: "is_picklist_field (example_picklist_field ?optsB)
        \<and> dict_get (example_picklist_field ?optsB) (VStr ''picklistValues'') = Some (VList ?optsB)
        \<and> list_all flagged_inactive ?optsB"
    by (simp add: is_picklist_field_def example_picklist_field_def flagged_inactive_def)
  have "\<exists>st. enrich_fields True ?org ?flds init_enrich_state = Inr st"
    by (simp add: enrich_eval)
  then obtain st where r: "enrich_fields True ?org ?flds init_enrich_state = Inr st" by blast
  have o: "dict_get ?org (VStr ''Status'') = Some (VDict (example_picklist_field ?optsB))"
    by simp
  note c = C10_default_active_and_none
    [of "example_picklist_field ?optsA" ?optsA "[(VStr ''value'', VStr ''X'')]" "VStr ''X''"
        "example_picklist_field ?optsB" ?optsB]
  from c hA have 1: "\<exists>vs. extract_picklist_values (example_picklist_field ?optsA) = Inr (Some vs)
                       \<and> VStr ''X'' \<in> set vs" by blast
  from c hB have 2: "extract_picklist_values (example_picklist_field ?optsB) = Inr None"
    by blast
  from c hB r o have 3: "dict_get (picklists_data st) (VStr ''Status'') = None" by blast
  from 1 2 3 r show ?thesis by blast
qed

section \<open>Splitter: lossless partition\<close>

lemma extract_loop_core:
  "extract_loop flds nm (p, f, c) = Inr (p', f', c') \<Longrightarrow> c' = c @ map (core_entry nm) flds"
proof (induction flds arbitrary: p f c)
  case Nil
  then show ?case by simp
next
  case (Cons fld flds)
  from Cons.prems obtain field where fld: "fld = VDict field"
    by (cases fld) auto
  from Cons.prems fld obtain p1 f1 where
    "extract_loop flds nm (p1, f1, c @ [VDict (core_field_of nm field)]) = Inr (p', f', c')"
    by (auto split: if_splits)
  from Cons.IH [OF this] fld show ?case by (simp add: core_entry_def)
qed

lemma extract_loop_other:
  "extract_loop flds nm (p, f, c) = Inr (p', f', c') \<Longrightarrow> nkey n \<notin> set (field_keys flds) \<Longrightarrow>
   dict_get p' n = dict_get p n \<and> dict_get f' n = dict_get f n"
proof (induction flds arbitrary: p f c)
  case Nil
  then show ?case by simp
next
  case (Cons fld flds)
  from Cons.prems obtain field where fld: "fld = VDict field"
    by (cases fld) auto
  let ?p1 = "if has_truthy field (VStr ''picklist_values'')
             then dict_set p (field_name_of field) (dict_get_default field (VStr ''picklist_values'') VNone)
             else p"
  let ?f1 = "if has_truthy field (VStr ''formula'')
             then dict_set f (field_name_of field) (dict_get_default field (VStr ''formula'') VNone)
             else f"
  from Cons.prems fld have
    r: "extract_loop flds nm (?p1, ?f1, c @ [VDict (core_field_of nm field)]) = Inr (p', f', c')"
    by (auto split: if_splits)
  from Cons.prems(2) fld have ne: "nkey (field_name_of field) \<noteq> nkey n"
    and rest: "nkey n \<notin> set (field_keys flds)"
    by (auto simp: field_keys_def)
  from Cons.IH [OF r rest] ne show ?case by (simp add: dict_get_dict_set)
qed

lemma extract_loop_entry:
  "extract_loop flds nm (p, f, c) = Inr (p', f', c') \<Longrightarrow> distinct (field_keys flds) \<Longrightarrow>
   i < length flds \<Longrightarrow> flds ! i = VDict field \<Longrightarrow>
   dict_get p' (field_name_of field) =
     (if has_truthy field (VStr ''picklist_values'') then dict_get field (VStr ''picklist_values'')
      else dict_get p (field_name_of field))
   \<and> dict_get f' (field_name_of field) =
     (if has_truthy field (VStr ''formula'') then dict_get field (VStr ''formula'')
      else dict_get f (field_name_of field))"
proof (induction flds arbitrary: p f c i)
  case Nil
  then show ?case by simp
next
  case (Cons fld flds)
  from Cons.prems(1) obtain field0 where fld: "fld = VDict field0"
    by (cases fld) auto
  let ?p1 = "if has_truthy field0 (VStr ''picklist_values'')
             then dict_set p (field_name_of field0) (dict_get_default field0 (VStr ''picklist_values'') VNone)
             else p"
  let ?f1 = "if has_truthy field0 (VStr ''formula'')
             then dict_set f (field_name_of field0) (dict_get_default field0 (VStr ''formula'') VNone)
             else f"
  from Cons.prems(1) fld have
    r: "extract_loop flds nm (?p1, ?f1, c @ [VDict (core_field_of nm field0)]) = Inr (p', f', c')"
    by (auto split: if_splits)
  from Cons.prems(2) fld have d: "distinct (field_keys flds)"
    and n0: "nkey (field_name_of field0) \<notin> set (field_keys flds)"
    by (auto simp: field_keys_def)
  show ?case
  proof (cases i)
    case 0
    with Cons.prems(4) fld have eq: "field0 = field" by simp
    from extract_loop_other [OF r n0] eq show ?thesis
      by (auto simp: dict_get_dict_set has_truthy_def dict_get_default_def split: option.splits)
  next
    case (Suc j)
    with Cons.prems have j: "j < length flds" "flds ! j = VDict field" by simp_all
    then have "nkey (field_name_of field) \<in> set (field_keys flds)"
      by (force simp: field_keys_def in_set_conv_nth)
    with n0 have ne: "nkey (field_name_of field0) \<noteq> nkey (field_name_of field)" by auto
    from Cons.IH [OF r d j] ne show ?thesis by (simp add: dict_get_dict_set)
  qed
qed

lemma field_name_of_core: "field_name_of (core_field_of nm field) = field_name_of field"
  by (simp add: field_name_of_def core_field_of_def dict_get_default_def Let_def
                dict_get_dict_set dict_get_dict_pop)

lemma dict_get_core_field:
  "dict_get (dict_pop (core_field_of nm field) (VStr ''_note'')) k =
     (if nkey k = VStr ''_note'' then None
      else if nkey k = VStr ''picklist_values'' \<and> has_truthy field (VStr ''picklist_values'') then None
      else if nkey k = VStr ''formula'' \<and> has_truthy field (VStr ''formula'') then None
      else dict_get field k)"
  by (auto simp: core_field_of_def Let_def dict_get_dict_set dict_get_dict_pop)

lemma reconstruct_field_get:
  assumes "dict_get picklists (field_name_of field) =
             (if has_truthy field (VStr ''picklist_values'') then dict_get field (VStr ''picklist_values'') else None)"
      and "dict_get formulas (field_name_of field) =
             (if has_truthy field (VStr ''formula'') then dict_get field (VStr ''formula'') else None)"
      and "nkey k \<noteq> VStr ''_note''"
  shows "dict_get (reconstruct_field (core_field_of nm field) picklists formulas) k = dict_get field k"
proof -
  have pv: "has_truthy field (VStr ''picklist_values'') \<Longrightarrow> \<exists>v. dict_get field (VStr ''picklist_values'') = Some v"
    and fo: "has_truthy field (VStr ''formula'') \<Longrightarrow> \<exists>v. dict_get field (VStr ''formula'') = Some v"
    by (auto simp: has_truthy_def split: option.splits)
  have c1: "nkey k = VStr ''picklist_values'' \<Longrightarrow> dict_get field k = dict_get field (VStr ''picklist_values'')"
    and c2: "nkey k = VStr ''formula'' \<Longrightarrow> dict_get field k = dict_get field (VStr ''formula'')"
    by (auto intro: dict_get_nkey_cong)
  show ?thesis
    using assms pv fo c1 c2
    by (auto simp: reconstruct_field_def Let_def field_name_of_core dict_get_dict_set
                   dict_get_core_field split: option.splits)
qed

lemma split_object_elim:
  assumes "split_object opt now obj = Inr part"
  obtains obj_name flds picklists formulas core_fields where
    "py_iter (dict_get_default obj (VStr ''fields'') (VList [])) = Inr flds"
    "extract_field_metadata flds obj_name = Inr (picklists, formulas, core_fields)"
    "core_fields_of (core_schema part) = core_fields"
    "payload_entries ''picklists'' (picklist_payload part) = picklists"
    "payload_entries ''formulas'' (formula_payload part) = formulas"
proof -
  from assms obtain obj_name where
    n: "dict_get_default obj (VStr ''api_name'') (VStr ''Unknown'') = VStr obj_name"
    by (cases "dict_get_default obj (VStr ''api_name'') (VStr ''Unknown'')")
       (auto simp: split_object_def)
  from assms n obtain flds where
    i: "py_iter (dict_get_default obj (VStr ''fields'') (VList [])) = Inr flds"
    by (cases "py_iter (dict_get_default obj (VStr ''fields'') (VList []))")
       (auto simp: split_object_def)
  from assms n i obtain picklists formulas core_fields where
    e: "extract_field_metadata flds obj_name = Inr (picklists, formulas, core_fields)"
    by (cases "extract_field_metadata flds obj_name") (auto simp: split_object_def)
  from assms n i e have
    "core_fields_of (core_schema part) = core_fields"
    "payload_entries ''picklists'' (picklist_payload part) = picklists"
    "payload_entries ''formulas'' (formula_payload part) = formulas"
    by (auto simp: split_object_def core_fields_of_def payload_entries_def
             split: sum.splits)
  with i e show thesis by (rule that)
qed

text \<open>
  C1. For an object the Splitter partitions, with field names pairwise different as
  dictionary keys, and for each of its fields: the entry of the field in the core schema
  payload, without the annotation and with the picklist entry and the formula entry
  filed under the field's name attached again, has the \<^verbatim>\<open>picklist_values\<close> and the
  \<^verbatim>\<open>formula\<close> of the original field.
\<close>

theorem C1_partition_lossless:
  assumes "split_object opt now obj = Inr part"
      and "py_iter (dict_get_default obj (VStr ''fields'') (VList [])) = Inr flds"
      and "distinct (field_keys flds)"
      and "i < length flds"
      and "flds ! i = VDict field"
  shows "\<exists>core_field.
           core_fields_of (core_schema part) ! i = VDict core_field
           \<and> dict_get (reconstruct_field core_field
                         (payload_entries ''picklists'' (picklist_payload part))
                         (payload_entries ''formulas'' (formula_payload part)))
                (VStr ''picklist_values'') = dict_get field (VStr ''picklist_values'')
           \<and> dict_get (reconstruct_field core_field
                         (payload_entries ''picklists'' (picklist_payload part))
                         (payload_entries ''formulas'' (formula_payload part)))
                (VStr ''formula'') = dict_get field (VStr ''formula'')"
  using assms(1)
proof (cases rule: split_object_elim)
  case (1 obj_name flds' picklists formulas core_fields)
  with assms(2) have eq: "flds' = flds" by simp
  from 1(2) eq have loop: "extract_loop flds obj_name ([], [], []) = Inr (picklists, formulas, core_fields)"
    by (simp add: extract_field_metadata_def)
  from extract_loop_core [OF loop] assms(4,5)
  have core: "core_fields ! i = VDict (core_field_of obj_name field)"
    by (simp add: core_entry_def)
  from extract_loop_entry [OF loop assms(3,4,5)]
  have p: "dict_get picklists (field_name_of field) =
             (if has_truthy field (VStr ''picklist_values'') then dict_get field (VStr ''picklist_values'') else None)"
    and f: "dict_get formulas (field_name_of field) =
             (if has_truthy field (VStr ''formula'') then dict_get field (VStr ''formula'') else None)"
    by simp_all
  show ?thesis
    using core reconstruct_field_get [OF p f, of _ obj_name] 1(3,4,5) by simp
qed

section \<open>IndexBuilder: the search index\<close>

lemma keys_dict_set: "set (map fst (dict_set d k v)) \<subseteq> insert k (set (map fst d))"
  by (induction d k v rule: dict_set.induct) auto

lemma keys_dict_set_in:
  "set (map fst d) \<subseteq> K \<Longrightarrow> k \<in> K \<Longrightarrow> set (map fst (dict_set d k v)) \<subseteq> K"
  using keys_dict_set [of d k v] by blast

lemma search_field_info_keys:
  "set (map fst (search_field_info field)) \<subseteq> VStr ` set search_keys"
  unfolding search_field_info_def Let_def
  by (intro keys_dict_set_in | simp add: search_keys_def split: option.splits)+

lemma legacy_search_field_info_keys:
  "set (map fst (legacy_search_field_info field)) \<subseteq> VStr ` set legacy_search_keys"
  unfolding legacy_search_field_info_def Let_def
  by (intro keys_dict_set_in | simp add: legacy_search_keys_def split: option.splits)+

lemma search_field_info_lean: "lean_entry (VDict (search_field_info field))"
  using search_field_info_keys [of field]
  by (auto simp: lean_entry_def is_flag_def search_field_info_def Let_def dict_get_dict_set
           split: option.splits)

lemma search_fields_list_lean:
  "search_fields_list search_field_info flds = Inr infos \<Longrightarrow> list_all lean_entry infos"
proof (induction flds arbitrary: infos)
  case Nil
  then show ?case by simp
next
  case (Cons fld flds)
  then show ?case
    by (auto simp: search_field_info_lean split: yval.splits sum.splits)
qed

lemma legacy_search_field_info_values:
  "dict_get (legacy_search_field_info field) (VStr ''picklist_values'')
     = dict_get field (VStr ''picklist_values'')"
  by (auto simp: legacy_search_field_info_def Let_def dict_get_dict_set split: option.splits)

text \<open>
  C5 (as amended). In the Splitter of the partitioned layout every field entry of the
  search index has only the keys name, type, required, has_picklist_values, has_formula,
  reference_to and length, the two presence flags are the boolean true, and there is no
  key \<^verbatim>\<open>picklist_values\<close> or \<^verbatim>\<open>formula\<close>. In the older single-file Splitter the entry
  has only the keys name, type, required, picklist_values, reference_to and length, and
  \<^verbatim>\<open>picklist_values\<close> is copied from the field.
\<close>

theorem C5_search_index_lean:
  "(search_index_fields search_field_info obj = Inr infos \<longrightarrow> list_all lean_entry infos)
   \<and> set (map fst (legacy_search_field_info field)) \<subseteq> VStr ` set legacy_search_keys
   \<and> dict_get (legacy_search_field_info field) (VStr ''picklist_values'')
       = dict_get field (VStr ''picklist_values'')"
proof (intro conjI impI)
  assume "search_index_fields search_field_info obj = Inr infos"
  then obtain flds where "search_fields_list search_field_info flds = Inr infos"
    by (auto simp: search_index_fields_def split: sum.splits)
  then show "list_all lean_entry infos" by (rule search_fields_list_lean)
next
  show "set (map fst (legacy_search_field_info field)) \<subseteq> VStr ` set legacy_search_keys"
    by (rule legacy_search_field_info_keys)
next
  show "dict_get (legacy_search_field_info field) (VStr ''picklist_values'')
          = dict_get field (VStr ''picklist_values'')"
    by (rule legacy_search_field_info_values)
qed

section \<open>Categorizer\<close>

lemma category_of_spec: "category_of CATEGORIES (VStr n) = Inr (spec_category n)"
  by (simp add: category_of_def CATEGORIES_def spec_category_def image_iff)

lemma bucket_bucket_append:
  "bucket (bucket_append d c' obj) c = (if c' = c then bucket d c @ [obj] else bucket d c)"
  by (simp add: bucket_def bucket_append_def dict_get_dict_set)

lemma categorize_bucket:
  "categorize cats objs acc = Inr res \<Longrightarrow>
   bucket res c = bucket acc c @ filter (has_category cats c) objs"
proof (induction objs arbitrary: acc)
  case Nil
  then show ?case by simp
next
  case (Cons obj objs)
  from Cons.prems obtain n c' where
    n: "attr_get obj (VStr ''api_name'') (VStr []) = Inr n" and
    c': "category_of cats n = Inr c'" and
    r: "categorize cats objs (bucket_append acc c' obj) = Inr res"
    by (auto split: sum.splits)
  from Cons.IH [OF r] n c' show ?case
    by (auto simp: bucket_bucket_append has_category_def)
qed

text \<open>
  C8. The category the code computes for a name is the one of the specification's ordered
  rules, and in the result of the Categorizer an object with that name is in the bucket
  of exactly that category and in no other. The assignment is a function of the objects
  and the rule table, so a second run on the same input gives the same assignment.
\<close>

theorem C8_first_match_category:
  "category_of CATEGORIES (VStr n) = Inr (spec_category n)
   \<and> (categorize CATEGORIES objs [] = Inr categorized \<and> obj \<in> set objs
        \<and> object_name_of obj = Some n
      \<longrightarrow> (\<forall>c. obj \<in> set (bucket categorized c) \<longleftrightarrow> c = spec_category n))"
proof (intro conjI impI allI)
  show "category_of CATEGORIES (VStr n) = Inr (spec_category n)" by (rule category_of_spec)
next
  fix c
  assume a: "categorize CATEGORIES objs [] = Inr categorized \<and> obj \<in> set objs
        \<and> object_name_of obj = Some n"
  then have "attr_get obj (VStr ''api_name'') (VStr []) = Inr (VStr n)"
    by (auto simp: object_name_of_def attr_get_def split: yval.splits)
  then have "has_category CATEGORIES c obj \<longleftrightarrow> c = spec_category n"
    by (auto simp: has_category_def category_of_spec)
  with a categorize_bucket [of CATEGORIES objs "[]" categorized c]
  show "obj \<in> set (bucket categorized c) \<longleftrightarrow> c = spec_category n"
    by (auto simp: bucket_def)
qed

section \<open>Splitter, IndexBuilder and Categorizer on the small schema\<close>

lemmas split_eval =
  split_object_def example_object_def example_fields_def status_field_def
  example_optimizer_def extract_field_metadata_def field_name_of_def core_field_of_def
  has_truthy_def dict_get_default_def py_iter_def attr_get_def dict_pop_def Let_def
  picklist_note_def formula_note_def

text \<open>
  The scenario of the specification: the core entry of Status has no
  \<^verbatim>\<open>picklist_values\<close> and carries an annotation, the picklist payload has Status with
  Open and Closed, and the reconstruction gives the values back.
\<close>

theorem C1_partition_lossless_witness:
  "\<exists>part core_field.
     split_object example_optimizer (\<lambda>n. ''2024-02-02'') example_object = Inr part
     \<and> py_iter (dict_get_default example_object (VStr ''fields'') (VList [])) = Inr example_fields
     \<and> distinct (field_keys example_fields)
     \<and> (0::nat) < length example_fields
     \<and> example_fields ! 0 = VDict status_field
     \<and> core_fields_of (core_schema part) ! 0 = VDict core_field
     \<and> dict_get core_field (VStr ''picklist_values'') = None
     \<and> dict_get core_field (VStr ''_note'') \<noteq> None
     \<and> dict_get (payload_entries ''picklists'' (picklist_payload part)) (VStr ''Status'')
         = Some (VList [VStr ''Open'', VStr ''Closed''])
     \<and> dict_get (reconstruct_field core_field
                   (payload_entries ''picklists'' (picklist_payload part))
                   (payload_entries ''formulas'' (formula_payload part)))
          (VStr ''picklist_values'') = Some (VList [VStr ''Open'', VStr ''Closed''])"
proof -
  have "\<exists>part. split_object example_optimizer (\<lambda>n. ''2024-02-02'') example_object = Inr part
          \<and> (\<exists>c. core_fields_of (core_schema part) ! 0 = VDict c
                 \<and> dict_get c (VStr ''picklist_values'') = None
                 \<and> dict_get c (VStr ''_note'') \<noteq> None)
          \<and> dict_get (payload_entries ''picklists'' (picklist_payload part)) (VStr ''Status'')
               = Some (VList [VStr ''Open'', VStr ''Closed''])"
    by (simp add: split_eval core_fields_of_def payload_entries_def)
  then obtain part c where
    s: "split_object example_optimizer (\<lambda>n. ''2024-02-02'') example_object = Inr part" and
    c: "core_fields_of (core_schema part) ! 0 = VDict c"
       "dict_get c (VStr ''picklist_values'') = None" "dict_get c (VStr ''_note'') \<noteq> None" and
    p: "dict_get (payload_entries ''picklists'' (picklist_payload part)) (VStr ''Status'')
               = Some (VList [VStr ''Open'', VStr ''Closed''])"
    by blast
  have i: "py_iter (dict_get_default example_object (VStr ''fields'') (VList [])) = Inr example_fields"
    by (simp add: example_object_def dict_get_default_def py_iter_def)
  have d: "distinct (field_keys example_fields)"
    by (simp add: field_keys_def example_fields_def status_field_def field_name_of_def
                  dict_get_default_def)
  have l: "(0::nat) < length example_fields" by (simp add: example_fields_def)
  have f: "example_fields ! 0 = VDict status_field" by (simp add: example_fields_def)
  from C1_partition_lossless [OF s i d l f] c(1)
  have "dict_get (reconstruct_field c
                   (payload_entries ''picklists'' (picklist_payload part))
                   (payload_entries ''formulas'' (formula_payload part)))
          (VStr ''picklist_values'') = dict_get status_field (VStr ''picklist_values'')"
    by auto
  then have "dict_get (reconstruct_field c
                   (payload_entries ''picklists'' (picklist_payload part))
                   (payload_entries ''formulas'' (formula_payload part)))
          (VStr ''picklist_values'') = Some (VList [VStr ''Open'', VStr ''Closed''])"
    by (simp add: status_field_def)
  with s i d l f c p show ?thesis by blast
qed

text \<open>In the search index of the partitioned layout the entry of Status has the
  presence flag and no values.\<close>

theorem C5_search_index_lean_witness:
  "\<exists>infos.
     search_index_fields search_field_info (VDict example_object) = Inr infos
     \<and> list_all lean_entry infos
     \<and> infos ! 0 = VDict [(VStr ''name'', VStr ''Status''), (VStr ''type'', VStr ''Picklist''),
                           (VStr ''required'', VBool False),
                           (VStr ''has_picklist_values'', VBool True)]"
proof -
  have "\<exists>infos. search_index_fields search_field_info (VDict example_object) = Inr infos
          \<and> infos ! 0 = VDict [(VStr ''name'', VStr ''Status''), (VStr ''type'', VStr ''Picklist''),
                           (VStr ''required'', VBool False),
                           (VStr ''has_picklist_values'', VBool True)]"
    by (simp add: search_index_fields_def search_field_info_def split_eval)
  then obtain infos where
    r: "search_index_fields search_field_info (VDict example_object) = Inr infos" and
    e: "infos ! 0 = VDict [(VStr ''name'', VStr ''Status''), (VStr ''type'', VStr ''Picklist''),
                           (VStr ''required'', VBool False),
                           (VStr ''has_picklist_values'', VBool True)]"
    by blast
  from C5_search_index_lean [of "VDict example_object" infos] r
  have "list_all lean_entry infos" by blast
  with r e show ?thesis by blast
qed

text \<open>
  The claim as stated fails for the older Splitter, which is part of the repository:
  its entry for Status has the key \<^verbatim>\<open>picklist_values\<close> with the values themselves.
\<close>

theorem C5_counterexample:
  "dict_get (legacy_search_field_info status_field) (VStr ''picklist_values'')
     = Some (VList [VStr ''Open'', VStr ''Closed''])
   \<and> \<not> lean_entry (VDict (legacy_search_field_info status_field))"
  by (simp add: legacy_search_field_info_def status_field_def lean_entry_def
                dict_get_default_def Let_def)

text \<open>Lead is in two membership lists; it is filed under core, the first of them, and
  under no other category.\<close>

theorem C8_first_match_category_witness:
  "\<exists>categorized.
     categorize CATEGORIES example_objects [] = Inr categorized
     \<and> named_object ''Lead'' \<in> set example_objects
     \<and> object_name_of (named_object ''Lead'') = Some ''Lead''
     \<and> named_object ''Lead'' \<in> set (bucket categorized ''core'')
     \<and> named_object ''Lead'' \<notin> set (bucket categorized ''marketing'')
     \<and> category_of CATEGORIES (VStr ''Invoice__c'') = Inr ''custom''
     \<and> category_of CATEGORIES (VStr ''HealthCloudGA__Plan__c'') = Inr ''healthcare''"
proof -
  have cat: "category_of CATEGORIES (VStr n) = Inr (spec_category n)" for n
    using C8_first_match_category [of n "[]" "[]" VNone] by blast
  have sc: "spec_category ''Account'' = ''core''" "spec_category ''Lead'' = ''core''"
    "spec_category ''Case'' = ''service''" "spec_category ''Invoice__c'' = ''custom''"
    "spec_category ''HealthCloudGA__Plan__c'' = ''healthcare''"
    "spec_category ''Asset'' = ''other''"
    by (simp_all add: spec_category_def startswith_def endswith_def)
  have "\<exists>categorized. categorize CATEGORIES example_objects [] = Inr categorized"
    by (simp add: example_objects_def named_object_def attr_get_def dict_get_default_def
                  cat sc)
  then obtain categorized where
    r: "categorize CATEGORIES example_objects [] = Inr categorized" by blast
  have m: "named_object ''Lead'' \<in> set example_objects" by (simp add: example_objects_def)
  have n: "object_name_of (named_object ''Lead'') = Some ''Lead''"
    by (simp add: object_name_of_def named_object_def dict_get_default_def)
  from C8_first_match_category [of "''Lead''" example_objects categorized "named_object ''Lead''"]
    r m n
  have b: "\<And>c. named_object ''Lead'' \<in> set (bucket categorized c) \<longleftrightarrow> c = spec_category ''Lead''"
    by blast
  from b [of "''core''"] b [of "''marketing''"] sc
  have "named_object ''Lead'' \<in> set (bucket categorized ''core'')"
       "named_object ''Lead'' \<notin> set (bucket categorized ''marketing'')" by simp_all
  with r m n cat [of "''Invoice__c''"] cat [of "''HealthCloudGA__Plan__c''"] sc
  show ?thesis by auto
qed

section \<open>MetadataParser and RelationshipExtractor\<close>

lemma dict_get_set_text:
  "dict_get (set_text root nm key fd) (VStr k) =
     (if k = key \<and> find_text root nm \<noteq> None then map_option VStr (find_text root nm)
      else dict_get fd (VStr k))"
  by (auto simp: set_text_def dict_get_dict_set split: option.splits)

lemma dict_get_set_bool_other:
  "k \<noteq> key \<Longrightarrow> dict_get (set_bool root nm key fd) (VStr k) = dict_get fd (VStr k)"
  by (auto simp: set_bool_def dict_get_dict_set split: option.splits)

lemma dict_get_set_int_other:
  "k \<noteq> key \<Longrightarrow> dict_get (set_int root nm key fd) (VStr k) = dict_get fd (VStr k)"
  by (auto simp: set_int_def dict_get_dict_set split: option.splits)

lemma extract_field_unfold:
  "extract_field root file_stem parent rels =
     (if is_reference_type (basic_field root file_stem)
      then (finish_field root (reference_field root (basic_field root file_stem)),
            if dict_get (reference_field root (basic_field root file_stem)) (VStr ''reference_to'') \<noteq> None
            then rels @ [relationship_edge parent
                           (VStr (case find_text root ''fullName'' of Some t \<Rightarrow> t | None \<Rightarrow> file_stem))
                           (reference_field root (basic_field root file_stem))]
            else rels)
      else (finish_field root (basic_field root file_stem), rels))"
  by (simp add: extract_field_def Let_def basic_field_def reference_field_def finish_field_def)

lemma basic_field_type:
  "dict_get (basic_field root file_stem) (VStr ''type'') = map_option VStr (find_text root ''type'')"
  by (simp add: basic_field_def dict_get_set_text dict_get_set_bool_other dict_get_set_int_other)

lemma basic_field_name:
  "dict_get (basic_field root file_stem) (VStr ''api_name'') =
     Some (VStr (case find_text root ''fullName'' of Some t \<Rightarrow> t | None \<Rightarrow> file_stem))"
  by (simp add: basic_field_def dict_get_set_text dict_get_set_bool_other dict_get_set_int_other)

lemma basic_field_reference_to:
  "dict_get (basic_field root file_stem) (VStr ''reference_to'') = None"
  by (simp add: basic_field_def dict_get_set_text dict_get_set_bool_other dict_get_set_int_other)

lemma is_reference_type_basic:
  "is_reference_type (basic_field root file_stem) \<longleftrightarrow>
     find_text root ''type'' = Some ''Lookup'' \<or> find_text root ''type'' = Some ''MasterDetail''"
  by (auto simp: is_reference_type_def basic_field_type)

lemma reference_field_get:
  "dict_get (reference_field root fd) (VStr ''reference_to'') =
     (if find_text root ''referenceTo'' \<noteq> None then map_option VStr (find_text root ''referenceTo'')
      else dict_get fd (VStr ''reference_to''))"
  "dict_get (reference_field root fd) (VStr ''type'') = dict_get fd (VStr ''type'')"
  "dict_get (reference_field root fd) (VStr ''api_name'') = dict_get fd (VStr ''api_name'')"
  by (simp_all add: reference_field_def dict_get_set_text)

lemma finish_field_get:
  "dict_get (finish_field root fd) (VStr ''reference_to'') = dict_get fd (VStr ''reference_to'')"
  "dict_get (finish_field root fd) (VStr ''type'') = dict_get fd (VStr ''type'')"
  "dict_get (finish_field root fd) (VStr ''api_name'') = dict_get fd (VStr ''api_name'')"
  "dict_get (finish_field root fd) (VStr ''parse_error'') = dict_get fd (VStr ''parse_error'')"
  by (simp_all add: finish_field_def dict_get_set_text dict_get_dict_set)

text \<open>
  C9. A field document is taken with the type and the reference target the parser reads
  from it: the non-empty text of its first \<^verbatim>\<open>type\<close> element and of its first
  \<^verbatim>\<open>referenceTo\<close> element. When the type is Lookup or MasterDetail and there is a
  reference target, parsing the field appends exactly one edge, from the parent object and
  the field's name to the target, typed like the field. A field of any other type, a
  reference-typed field without a target, and a document that does not parse append
  nothing.
\<close>

theorem C9_relationship_edge:
  "(content field_file = WellFormed root
      \<and> find_text root ''type'' = Some t \<and> (t = ''Lookup'' \<or> t = ''MasterDetail'')
      \<and> find_text root ''referenceTo'' = Some target
    \<longrightarrow> (\<exists>fd edge.
           parse_field field_file parent rels = (Some fd, rels @ [VDict edge])
           \<and> dict_get fd (VStr ''type'') = Some (VStr t)
           \<and> dict_get fd (VStr ''reference_to'') = Some (VStr target)
           \<and> dict_get edge (VStr ''from_object'') = Some (VStr parent)
           \<and> dict_get edge (VStr ''from_field'') = dict_get fd (VStr ''api_name'')
           \<and> dict_get edge (VStr ''to_object'') = Some (VStr target)
           \<and> dict_get edge (VStr ''relationship_type'') = Some (VStr t)))
   \<and> (content field_file = WellFormed root
        \<and> (find_text root ''type'' \<noteq> Some ''Lookup'' \<and> find_text root ''type'' \<noteq> Some ''MasterDetail''
             \<or> find_text root ''referenceTo'' = None)
      \<longrightarrow> snd (parse_field field_file parent rels) = rels)
   \<and> (content field_file = Malformed \<or> content field_file = Unreadable
      \<longrightarrow> parse_field field_file parent rels = (None, rels))"
proof (intro conjI impI)
  assume a: "content field_file = WellFormed root
      \<and> find_text root ''type'' = Some t \<and> (t = ''Lookup'' \<or> t = ''MasterDetail'')
      \<and> find_text root ''referenceTo'' = Some target"
  let ?stem = "stem (file_name field_file)"
  let ?b = "basic_field root ?stem"
  let ?r = "reference_field root ?b"
  let ?n = "VStr (case find_text root ''fullName'' of Some t \<Rightarrow> t | None \<Rightarrow> ?stem)"
  from a have ref: "is_reference_type ?b" by (auto simp: is_reference_type_basic)
  from a have rt: "dict_get ?r (VStr ''reference_to'') = Some (VStr target)"
    by (simp add: reference_field_get)
  from a have ty: "dict_get ?r (VStr ''type'') = Some (VStr t)"
    by (simp add: reference_field_get basic_field_type)
  have nm: "dict_get ?r (VStr ''api_name'') = Some ?n"
    by (simp add: reference_field_get basic_field_name)
  from a ref rt have
    "parse_field field_file parent rels =
       (Some (finish_field root ?r), rels @ [relationship_edge parent ?n ?r])"
    by (simp add: parse_field_def extract_field_unfold)
  with rt ty nm show "\<exists>fd edge.
           parse_field field_file parent rels = (Some fd, rels @ [VDict edge])
           \<and> dict_get fd (VStr ''type'') = Some (VStr t)
           \<and> dict_get fd (VStr ''reference_to'') = Some (VStr target)
           \<and> dict_get edge (VStr ''from_object'') = Some (VStr parent)
           \<and> dict_get edge (VStr ''from_field'') = dict_get fd (VStr ''api_name'')
           \<and> dict_get edge (VStr ''to_object'') = Some (VStr target)
           \<and> dict_get edge (VStr ''relationship_type'') = Some (VStr t)"
    by (simp add: relationship_edge_def finish_field_get dict_get_default_def)
next
  assume "content field_file = WellFormed root
        \<and> (find_text root ''type'' \<noteq> Some ''Lookup'' \<and> find_text root ''type'' \<noteq> Some ''MasterDetail''
             \<or> find_text root ''referenceTo'' = None)"
  then show "snd (parse_field field_file parent rels) = rels"
    by (auto simp: parse_field_def extract_field_unfold is_reference_type_basic
                   reference_field_get basic_field_reference_to)
next
  assume "content field_file = Malformed \<or> content field_file = Unreadable"
  then show "parse_field field_file parent rels = (None, rels)"
    by (auto simp: parse_field_def)
qed

lemma fst_extract_field:
  "fst (extract_field root file_stem parent rels) =
     finish_field root
       (if is_reference_type (basic_field root file_stem)
        then reference_field root (basic_field root file_stem)
        else basic_field root file_stem)"
  by (simp add: extract_field_unfold)

lemma parse_field_unfold:
  "parse_field f parent rels =
     (case content f of
        WellFormed root \<Rightarrow>
          (Some (fst (extract_field root (stem (file_name f)) parent rels)),
           snd (extract_field root (stem (file_name f)) parent rels))
      | _ \<Rightarrow> (None, rels))"
  by (simp add: parse_field_def split_def Let_def split: file_content.splits)

lemma fst_parse_field: "fst (parse_field f parent rels) = fst (parse_field f parent [])"
  by (simp add: parse_field_unfold fst_extract_field split: file_content.splits)

lemma parse_field_Some_iff: "fst (parse_field f parent rels) \<noteq> None \<longleftrightarrow> well_formed f"
  by (simp add: parse_field_unfold well_formed_def split: file_content.splits)

lemma parse_field_not_empty: "fst (parse_field f parent rels) \<noteq> Some []"
proof
  assume a: "fst (parse_field f parent rels) = Some []"
  then obtain root where "content f = WellFormed root"
    by (auto simp: parse_field_unfold split: file_content.splits)
  with a have "fst (extract_field root (stem (file_name f)) parent rels) = []"
    by (simp add: parse_field_unfold)
  then have "dict_get (fst (extract_field root (stem (file_name f)) parent rels)) (VStr ''api_name'') = None"
    by simp
  then show False
    by (simp add: fst_extract_field finish_field_get reference_field_get basic_field_name
             split: if_splits)
qed

lemma parse_field_no_marker:
  "fst (parse_field f parent rels) = Some fd \<Longrightarrow> dict_get fd (VStr ''parse_error'') = None"
  by (auto simp: parse_field_unfold fst_extract_field finish_field_get reference_field_def
                 basic_field_def dict_get_set_text dict_get_set_bool_other dict_get_set_int_other
           split: file_content.splits if_splits)

lemma parse_fields_fst:
  "fst (parse_fields files parent (flds, rels)) = flds @ concat (map (parsed_field parent) files)"
proof (induction files arbitrary: flds rels)
  case Nil
  then show ?case by simp
next
  case (Cons f files)
  obtain r rels' where p: "parse_field f parent rels = (r, rels')" by (cases "parse_field f parent rels")
  then have r: "fst (parse_field f parent []) = r" using fst_parse_field [of f parent rels] by simp
  show ?case
  proof (cases r)
    case None
    with p r Cons.IH show ?thesis by (simp add: parsed_field_def)
  next
    case (Some fd)
    with p parse_field_not_empty [of f parent rels] have "fd \<noteq> []" by auto
    with Some p r Cons.IH show ?thesis by (simp add: parsed_field_def)
  qed
qed

lemma length_parsed_fields:
  "length (concat (map (parsed_field parent) files)) = length (filter well_formed files)"
proof (induction files)
  case Nil
  then show ?case by simp
next
  case (Cons f files)
  from parse_field_Some_iff [of f parent "[]"]
  have "well_formed f \<longleftrightarrow> fst (parse_field f parent []) \<noteq> None" by simp
  with Cons show ?case by (auto simp: parsed_field_def split: option.splits)
qed

lemma parsed_fields_no_placeholder:
  "list_all (\<lambda>v. \<not> is_placeholder v) (concat (map (parsed_field parent) files))"
  by (induction files)
     (auto simp: parsed_field_def is_placeholder_def parse_field_no_marker split: option.splits)

lemma dict_get_set_descriptor:
  "k \<noteq> ''label'' \<Longrightarrow> k \<noteq> ''description'' \<Longrightarrow>
   dict_get (set_descriptor nm d obj) (VStr k) = dict_get obj (VStr k)"
  by (auto simp: set_descriptor_def dict_get_set_text dict_get_dict_set
           split: option.splits file_content.splits)

lemma parse_object_fields:
  "object_fields (fst (parse_object d rels)) =
     concat (map (parsed_field (dir_name d)) (sorted_files (field_files d)))"
  by (simp add: parse_object_def Let_def split_def object_fields_def dict_get_dict_set
                parse_fields_fst)

lemma parse_object_name:
  "dict_get (fst (parse_object d rels)) (VStr ''api_name'') = Some (VStr (dir_name d))"
  by (simp add: parse_object_def Let_def split_def dict_get_dict_set dict_get_set_descriptor)

text \<open>
  C3 (as amended). For an object directory with field documents, the fields of the parsed
  object are the normally parsed fields of the well-formed documents, in the order of the
  file names: a document that is malformed or unreadable contributes no field at all (the
  parser prints a warning), so there are as many fields as well-formed documents and none
  of them is a placeholder; the object itself parses and keeps its name.
\<close>

theorem C3_malformed_field_skipped:
  "field_files d = Some files \<longrightarrow>
     object_fields (fst (parse_object d rels))
       = concat (map (parsed_field (dir_name d)) (sort_key file_name files))
     \<and> length (object_fields (fst (parse_object d rels))) = length (filter well_formed files)
     \<and> list_all (\<lambda>v. \<not> is_placeholder v) (object_fields (fst (parse_object d rels)))
     \<and> dict_get (fst (parse_object d rels)) (VStr ''api_name'') = Some (VStr (dir_name d))"
  by (simp add: parse_object_fields parse_object_name sorted_files_def length_parsed_fields
                parsed_fields_no_placeholder filter_sort)

lemma sort_key_perm:
  assumes "mset xs = mset ys" and "distinct (map f xs)"
  shows "sort_key f xs = sort_key f ys"
proof (rule sort_key_inj_key_eq)
  show "mset xs = mset (sort_key f ys)" using assms(1) by simp
  show "inj_on f (set xs)" using assms(2) by (simp add: distinct_map)
  show "sorted (map f (sort_key f ys))" by simp
qed

lemma sorted_files_same:
  "same_listing a b \<Longrightarrow> distinct_listing a \<Longrightarrow> sorted_files a = sorted_files b"
  by (auto simp: same_listing_def distinct_listing_def sorted_files_def intro: sort_key_perm
           split: option.splits)

lemma parse_object_same:
  assumes "same_dir d d'" and "distinct_names d"
  shows "parse_object d rels = parse_object d' rels"
proof -
  from assms have
    "sorted_files (field_files d) = sorted_files (field_files d')"
    "sorted_files (record_type_files d) = sorted_files (record_type_files d')"
    "sorted_files (validation_rule_files d) = sorted_files (validation_rule_files d')"
    by (simp_all add: same_dir_def distinct_names_def sorted_files_same)
  moreover from assms(1) have "dir_name d = dir_name d'" "descriptor d = descriptor d'"
    by (simp_all add: same_dir_def)
  ultimately show ?thesis by (simp add: parse_object_def)
qed

lemma insort_key_all2:
  assumes "list_all2 R xs ys" and "R x y"
      and "\<And>a b. R a b \<Longrightarrow> f a = f b"
  shows "list_all2 R (insort_key f x xs) (insort_key f y ys)"
  using assms(1)
proof (induction rule: list_all2_induct)
  case Nil
  from assms(2) show ?case by simp
next
  case (Cons a xs b ys)
  from assms(3) [OF Cons(1)] assms(3) [OF assms(2)] Cons assms(2)
  show ?case by auto
qed

lemma sort_key_all2:
  assumes "list_all2 R xs ys" and "\<And>a b. R a b \<Longrightarrow> f a = f b"
  shows "list_all2 R (sort_key f xs) (sort_key f ys)"
  using assms(1)
proof (induction rule: list_all2_induct)
  case Nil
  then show ?case by simp
next
  case (Cons a xs b ys)
  then show ?case by (simp add: insort_key_all2 [OF _ _ assms(2)])
qed

lemma parse_dirs_same:
  "list_all2 same_dir ds ds' \<Longrightarrow> list_all distinct_names ds \<Longrightarrow> parse_dirs ds s = parse_dirs ds' s"
proof (induction arbitrary: s rule: list_all2_induct)
  case Nil
  then show ?case by simp
next
  case (Cons d ds d' ds')
  then show ?case by (simp add: parse_object_same [of d d'])
qed

lemma parse_dirs_content:
  "same_content s s' \<Longrightarrow> same_content (parse_dirs ds s) (parse_dirs ds s')"
proof (induction ds arbitrary: s s')
  case Nil
  then show ?case by simp
next
  case (Cons d ds)
  define step where "step = (\<lambda>s :: parser_schema. s\<lparr>objects :=
      (if fst (parse_object d (relationships s)) \<noteq> []
       then objects s @ [VDict (fst (parse_object d (relationships s)))] else objects s),
      relationships := snd (parse_object d (relationships s))\<rparr>)"
  have e: "parse_dirs (d # ds) s = parse_dirs ds (step s)" for s
    by (simp add: step_def split_def Let_def)
  have "same_content (step s) (step s')"
    using Cons.prems by (simp add: step_def same_content_def)
  then show ?case unfolding e by (rule Cons.IH)
qed

lemma erase_generated_content:
  "same_content s s' \<Longrightarrow> erase_generated (save_yaml s) = erase_generated (save_yaml s')"
  by (simp add: same_content_def erase_generated_def save_yaml_def schema_value_def
                blank_schema_date_def blank_meta_def)

lemma parse_all_objects_content:
  "same_content s s' \<Longrightarrow>
   fst (parse_all_objects root s) = fst (parse_all_objects root s')
   \<and> same_content (snd (parse_all_objects root s)) (snd (parse_all_objects root s'))"
proof (cases root)
  case (Listing es)
  assume a: "same_content s s'"
  let ?ds = "sort_key dir_name (entry_dirs es)"
  from parse_dirs_content [OF a, of ?ds] a Listing show ?thesis
    by (auto simp: parse_all_objects_def Let_def same_content_def)
qed (simp_all add: parse_all_objects_def)

lemma parse_all_objects_same:
  assumes "mset ds = mset (entry_dirs es)"
      and "list_all2 same_dir ds (entry_dirs es')"
      and "distinct (map dir_name ds)"
      and "list_all distinct_names ds"
  shows "parse_all_objects (Listing es) s = parse_all_objects (Listing es') s"
proof -
  have len: "length (entry_dirs es) = length (entry_dirs es')"
    using assms(1,2) by (metis list_all2_lengthD size_mset)
  have s1: "sort_key dir_name (entry_dirs es) = sort_key dir_name ds"
    using sort_key_perm [OF assms(1,3)] by simp
  have "list_all2 same_dir (sort_key dir_name ds) (sort_key dir_name (entry_dirs es'))"
    using assms(2) by (rule sort_key_all2) (simp add: same_dir_def)
  moreover have "list_all distinct_names (sort_key dir_name ds)"
    using assms(4) by (simp add: list_all_iff)
  ultimately have "parse_dirs (sort_key dir_name (entry_dirs es)) s
                     = parse_dirs (sort_key dir_name (entry_dirs es')) s"
    using s1 by (simp add: parse_dirs_same)
  with len show ?thesis by (auto simp: parse_all_objects_def Let_def)
qed

text \<open>
  C4 (as amended). Two runs of the parse-and-save pipeline over the same document tree,
  at any two times and with the directories and the files of each subdirectory enumerated
  in any two orders, write documents that are equal except for the generation time (the
  header's Generated line and \<^verbatim>\<open>metadata.generated_date\<close>).
\<close>

theorem C4_deterministic_output:
  assumes "mset ds = mset (entry_dirs es)"
      and "list_all2 same_dir ds (entry_dirs es')"
      and "distinct (map dir_name ds)"
      and "list_all distinct_names ds"
  shows "map_option erase_generated (generate_schema now1 p (Listing es))
           = map_option erase_generated (generate_schema now2 p (Listing es'))"
proof -
  have "same_content (init_schema now1 p) (init_schema now2 p)"
    by (simp add: same_content_def init_schema_def)
  from parse_all_objects_content [OF this, of "Listing es"]
  have "fst (parse_all_objects (Listing es) (init_schema now1 p))
          = fst (parse_all_objects (Listing es) (init_schema now2 p))"
    and "same_content (snd (parse_all_objects (Listing es) (init_schema now1 p)))
           (snd (parse_all_objects (Listing es) (init_schema now2 p)))"
    by simp_all
  moreover have "parse_all_objects (Listing es) (init_schema now2 p)
                   = parse_all_objects (Listing es') (init_schema now2 p)"
    using assms by (rule parse_all_objects_same)
  ultimately show ?thesis
    by (auto simp: generate_schema_def split_def dest: erase_generated_content)
qed

section \<open>The parser on the small document tree\<close>

lemmas xml_eval =
  find_text_def find_elem_def findall_def contact_lookup_root_def contact_lookup_file_def
  subject_file_def text_field_doc_def named_field_file_def

text \<open>The scenario of the specification: the lookup ContactId on Case, which refers to
  Contact, gives one Lookup edge from Case to Contact; the text field Subject and a
  malformed document give none.\<close>

theorem C9_relationship_edge_witness:
  "(\<exists>fd edge.
      parse_field contact_lookup_file ''Case'' [] = (Some fd, [VDict edge])
      \<and> dict_get edge (VStr ''from_object'') = Some (VStr ''Case'')
      \<and> dict_get edge (VStr ''from_field'') = dict_get fd (VStr ''api_name'')
      \<and> dict_get edge (VStr ''to_object'') = Some (VStr ''Contact'')
      \<and> dict_get edge (VStr ''relationship_type'') = Some (VStr ''Lookup''))
   \<and> snd (parse_field subject_file ''Case'' []) = []
   \<and> parse_field (named_field_file ''Broken'' Malformed) ''Case'' [] = (None, [])"
proof -
  have 1: "content contact_lookup_file = WellFormed contact_lookup_root
      \<and> find_text contact_lookup_root ''type'' = Some ''Lookup''
      \<and> (''Lookup'' = ''Lookup'' \<or> ''Lookup'' = ''MasterDetail'')
      \<and> find_text contact_lookup_root ''referenceTo'' = Some ''Contact''"
    by (simp add: xml_eval)
  let ?subject = "Element SF_NS ''CustomField'' None
       [Element SF_NS ''fullName'' (Some ''Subject'') [],
        Element SF_NS ''type'' (Some ''Text'') []]"
  have 2: "content subject_file = WellFormed ?subject
        \<and> (find_text ?subject ''type'' \<noteq> Some ''Lookup''
             \<and> find_text ?subject ''type'' \<noteq> Some ''MasterDetail''
             \<or> find_text ?subject ''referenceTo'' = None)"
    by (simp add: xml_eval)
  have 3: "content (named_field_file ''Broken'' Malformed) = Malformed
           \<or> content (named_field_file ''Broken'' Malformed) = Unreadable"
    by (simp add: named_field_file_def)
  from C9_relationship_edge
         [of contact_lookup_file contact_lookup_root "''Lookup''" "''Contact''" "''Case''" "[]"] 1
  have a: "\<exists>fd edge.
      parse_field contact_lookup_file ''Case'' [] = (Some fd, [VDict edge])
      \<and> dict_get edge (VStr ''from_object'') = Some (VStr ''Case'')
      \<and> dict_get edge (VStr ''from_field'') = dict_get fd (VStr ''api_name'')
      \<and> dict_get edge (VStr ''to_object'') = Some (VStr ''Contact'')
      \<and> dict_get edge (VStr ''relationship_type'') = Some (VStr ''Lookup'')"
    by auto
  from C9_relationship_edge [of subject_file ?subject _ _ "''Case''" "[]"] 2
  have b: "snd (parse_field subject_file ''Case'' []) = []" by blast
  from C9_relationship_edge [of "named_field_file ''Broken'' Malformed" _ _ _ "''Case''" "[]"] 3
  have c: "parse_field (named_field_file ''Broken'' Malformed) ''Case'' [] = (None, [])"
    by blast
  from a b c show ?thesis by blast
qed

lemma ten_field_files_well_formed: "length (filter well_formed ten_field_files) = 9"
  by (simp add: ten_field_files_def named_field_file_def text_field_doc_def well_formed_def)

text \<open>With one malformed document among ten, the object has the nine fields of the
  well-formed documents and keeps its name.\<close>

theorem C3_malformed_field_skipped_witness:
  "field_files ten_fields_dir = Some ten_field_files
   \<and> length (object_fields (fst (parse_object ten_fields_dir []))) = 9
   \<and> list_all (\<lambda>v. \<not> is_placeholder v) (object_fields (fst (parse_object ten_fields_dir [])))
   \<and> dict_get (fst (parse_object ten_fields_dir [])) (VStr ''api_name'')
       = Some (VStr ''Invoice__c'')"
proof -
  have f: "field_files ten_fields_dir = Some ten_field_files"
    by (simp add: ten_fields_dir_def)
  have n: "dir_name ten_fields_dir = ''Invoice__c''" by (simp add: ten_fields_dir_def)
  from C3_malformed_field_skipped [of ten_fields_dir ten_field_files "[]"] f
  have "length (object_fields (fst (parse_object ten_fields_dir [])))
          = length (filter well_formed ten_field_files)"
    and "list_all (\<lambda>v. \<not> is_placeholder v) (object_fields (fst (parse_object ten_fields_dir [])))"
    and "dict_get (fst (parse_object ten_fields_dir [])) (VStr ''api_name'')
          = Some (VStr (dir_name ten_fields_dir))"
    by blast+
  with f n ten_field_files_well_formed show ?thesis by simp
qed

text \<open>
  The claim as stated fails on that directory: it has ten field documents, one of them
  malformed, and the parsed object has nine fields, none of which is a placeholder; the
  malformed document has left no entry.
\<close>

theorem C3_counterexample:
  "length ten_field_files = 10
   \<and> length (filter well_formed ten_field_files) = 9
   \<and> length (object_fields (fst (parse_object ten_fields_dir []))) = 9
   \<and> filter is_placeholder (object_fields (fst (parse_object ten_fields_dir []))) = []"
proof -
  have s: "sorted_files (field_files ten_fields_dir) = sort_key file_name ten_field_files"
    by (simp add: sorted_files_def ten_fields_dir_def)
  have "length (object_fields (fst (parse_object ten_fields_dir []))) = 9"
    by (simp add: parse_object_fields s length_parsed_fields filter_sort
                  ten_field_files_well_formed)
  moreover have "filter is_placeholder (object_fields (fst (parse_object ten_fields_dir []))) = []"
    using parsed_fields_no_placeholder [of "dir_name ten_fields_dir"
            "sorted_files (field_files ten_fields_dir)"]
    by (simp add: parse_object_fields filter_empty_conv list_all_iff)
  moreover have "length ten_field_files = 10" by (simp add: ten_field_files_def)
  ultimately show ?thesis using ten_field_files_well_formed by simp
qed

lemma parse_dirs_generated_date: "generated_date (parse_dirs ds s) = generated_date s"
proof (induction ds arbitrary: s)
  case Nil
  then show ?case by simp
next
  case (Cons d ds)
  then show ?case by (simp add: split_def Let_def)
qed

lemma generate_schema_header:
  "\<exists>doc. generate_schema now p (Listing es) = Some doc \<and> header doc ! 2 = Generated now"
  by (simp add: generate_schema_def parse_all_objects_def Let_def save_yaml_def
                parse_dirs_generated_date init_schema_def)

text \<open>
  The claim as stated fails: two runs over the same tree, enumerated in the same order,
  at different times write different documents.
\<close>

theorem C4_counterexample:
  "generate_schema ''2024-01-01T09:00:00'' ''force-app/main/default/objects''
     (Listing example_listing)
   \<noteq> generate_schema ''2024-01-02T09:00:00'' ''force-app/main/default/objects''
       (Listing example_listing)"
proof
  assume e: "generate_schema ''2024-01-01T09:00:00'' ''force-app/main/default/objects''
     (Listing example_listing)
   = generate_schema ''2024-01-02T09:00:00'' ''force-app/main/default/objects''
       (Listing example_listing)"
  from generate_schema_header [of "''2024-01-01T09:00:00''" "''force-app/main/default/objects''"
         example_listing]
  obtain doc1 where d1: "generate_schema ''2024-01-01T09:00:00''
      ''force-app/main/default/objects'' (Listing example_listing) = Some doc1"
    "header doc1 ! 2 = Generated ''2024-01-01T09:00:00''" by blast
  from generate_schema_header [of "''2024-01-02T09:00:00''" "''force-app/main/default/objects''"
         example_listing]
  obtain doc2 where d2: "generate_schema ''2024-01-02T09:00:00''
      ''force-app/main/default/objects'' (Listing example_listing) = Some doc2"
    "header doc2 ! 2 = Generated ''2024-01-02T09:00:00''" by blast
  from e d1(1) d2(1) have "doc1 = doc2" by simp
  with d1(2) d2(2) have "Generated ''2024-01-01T09:00:00'' = Generated ''2024-01-02T09:00:00''"
    by simp
  then show False by simp
qed

text \<open>The two enumerations of the small tree give the same document, the generation
  time aside.\<close>

theorem C4_deterministic_output_witness:
  "mset [ten_fields_dir, case_dir [contact_lookup_file, subject_file]]
     = mset (entry_dirs example_listing_reordered)
   \<and> list_all2 same_dir [ten_fields_dir, case_dir [contact_lookup_file, subject_file]]
       (entry_dirs example_listing)
   \<and> distinct (map dir_name [ten_fields_dir, case_dir [contact_lookup_file, subject_file]])
   \<and> list_all distinct_names [ten_fields_dir, case_dir [contact_lookup_file, subject_file]]
   \<and> map_option erase_generated
        (generate_schema ''2024-01-01T09:00:00'' ''objects'' (Listing example_listing_reordered))
      = map_option erase_generated
          (generate_schema ''2024-01-02T09:00:00'' ''objects'' (Listing example_listing))
   \<and> generate_schema ''2024-01-01T09:00:00'' ''objects'' (Listing example_listing_reordered)
       \<noteq> None"
proof -
  let ?ds = "[ten_fields_dir, case_dir [contact_lookup_file, subject_file]]"
  have 1: "mset ?ds = mset (entry_dirs example_listing_reordered)"
    by (simp add: example_listing_reordered_def)
  have 2: "list_all2 same_dir ?ds (entry_dirs example_listing)"
    by (simp add: example_listing_def same_dir_def same_listing_def case_dir_def
             split: option.splits)
  have 3: "distinct (map dir_name ?ds)"
    by (simp add: ten_fields_dir_def case_dir_def)
  have 4: "list_all distinct_names ?ds"
    by (simp add: distinct_names_def distinct_listing_def ten_fields_dir_def case_dir_def
                  ten_field_files_def named_field_file_def contact_lookup_file_def
                  subject_file_def)
  from generate_schema_header [of "''2024-01-01T09:00:00''" "''objects''" example_listing_reordered]
  have 5: "generate_schema ''2024-01-01T09:00:00'' ''objects'' (Listing example_listing_reordered)
       \<noteq> None" by auto
  from C4_deterministic_output [OF 1 2 3 4] 1 2 3 4 5 show ?thesis by blast
qed

end
